theory Spec2Isabelle
  imports Complex_Main "HOL-Library.Sublist" "HOL-Library.AList"
begin

section \<open>JavaScript numbers\<close>

text \<open>
  A JavaScript number is a binary64 value. The model keeps the three non-finite values
  apart and carries a finite value as a real number; the two zeros are one value.
  Comparisons with \<open>NaN\<close> are false, as in the language. The operations \<open>js_add\<close>,
  \<open>js_sub\<close>, \<open>js_mul\<close> and \<open>js_div\<close> give the exact result, which the language then
  rounds to binary64: \<open>fl_add\<close>, \<open>fl_sub\<close>, \<open>fl_mul\<close> and \<open>fl_div\<close> below apply the
  rounding of the runtime, a parameter, to it. The endpoint is modelled with the exact
  operations and the client's interpolation with the rounded ones.
\<close>

datatype jsnum = NaN | PosInf | NegInf | Fin real

definition Number_isFinite :: "jsnum \<Rightarrow> bool" where
  "Number_isFinite v = (case v of Fin _ \<Rightarrow> True | _ \<Rightarrow> False)"

fun js_lt :: "jsnum \<Rightarrow> jsnum \<Rightarrow> bool" where
  "js_lt NaN _ = False"
| "js_lt _ NaN = False"
| "js_lt (Fin x) (Fin y) = (x < y)"
| "js_lt _ NegInf = False"
| "js_lt NegInf _ = True"
| "js_lt PosInf _ = False"
| "js_lt _ PosInf = True"

definition js_gt :: "jsnum \<Rightarrow> jsnum \<Rightarrow> bool" where
  "js_gt a b = js_lt b a"

definition js_le :: "jsnum \<Rightarrow> jsnum \<Rightarrow> bool" where
  "js_le a b = (a \<noteq> NaN \<and> b \<noteq> NaN \<and> \<not> js_lt b a)"

fun js_neg :: "jsnum \<Rightarrow> jsnum" where
  "js_neg NaN = NaN"
| "js_neg PosInf = NegInf"
| "js_neg NegInf = PosInf"
| "js_neg (Fin x) = Fin (- x)"

fun js_add :: "jsnum \<Rightarrow> jsnum \<Rightarrow> jsnum" where
  "js_add NaN _ = NaN"
| "js_add _ NaN = NaN"
| "js_add (Fin x) (Fin y) = Fin (x + y)"
| "js_add PosInf NegInf = NaN"
| "js_add NegInf PosInf = NaN"
| "js_add PosInf _ = PosInf"
| "js_add _ PosInf = PosInf"
| "js_add NegInf _ = NegInf"
| "js_add _ NegInf = NegInf"

definition js_sub :: "jsnum \<Rightarrow> jsnum \<Rightarrow> jsnum" where
  "js_sub a b = js_add a (js_neg b)"

text \<open>The sign of a number that is not \<open>NaN\<close>: \<open>-1\<close>, \<open>0\<close> or \<open>1\<close>.\<close>

fun js_sign :: "jsnum \<Rightarrow> int" where
  "js_sign NaN = 0"
| "js_sign PosInf = 1"
| "js_sign NegInf = - 1"
| "js_sign (Fin x) = (if x < 0 then - 1 else if x = 0 then 0 else 1)"

definition signedInfinity :: "int \<Rightarrow> jsnum" where
  "signedInfinity s = (if s = 0 then NaN else if 0 < s then PosInf else NegInf)"

fun js_mul :: "jsnum \<Rightarrow> jsnum \<Rightarrow> jsnum" where
  "js_mul NaN _ = NaN"
| "js_mul _ NaN = NaN"
| "js_mul (Fin x) (Fin y) = Fin (x * y)"
| "js_mul a b = signedInfinity (js_sign a * js_sign b)"

text \<open>
  Division. Every divisor in the program is a non-zero constant; a zero divisor is read
  as \<open>+0\<close>.
\<close>

fun js_div :: "jsnum \<Rightarrow> jsnum \<Rightarrow> jsnum" where
  "js_div NaN _ = NaN"
| "js_div _ NaN = NaN"
| "js_div (Fin x) (Fin y) = (if y = 0 then signedInfinity (js_sign (Fin x)) else Fin (x / y))"
| "js_div (Fin x) _ = Fin 0"
| "js_div a (Fin y) = signedInfinity (js_sign a * (if y < 0 then - 1 else 1))"
| "js_div _ _ = NaN"

text \<open>
  The remainder operator \<open>%\<close>: the result has the sign of the dividend
  (\<open>a - b * trunc (a / b)\<close>).
\<close>

definition truncate_real :: "real \<Rightarrow> int" where
  "truncate_real x = (if 0 \<le> x then \<lfloor>x\<rfloor> else \<lceil>x\<rceil>)"

fun js_rem :: "jsnum \<Rightarrow> jsnum \<Rightarrow> jsnum" where
  "js_rem NaN _ = NaN"
| "js_rem _ NaN = NaN"
| "js_rem PosInf _ = NaN"
| "js_rem NegInf _ = NaN"
| "js_rem (Fin x) (Fin y) = (if y = 0 then NaN else Fin (x - y * of_int (truncate_real (x / y))))"
| "js_rem (Fin x) _ = Fin x"

text \<open>\<open>Math.min\<close>, \<open>Math.max\<close>, \<open>Math.floor\<close> and \<open>Math.sqrt\<close>.\<close>

definition Math_min :: "jsnum \<Rightarrow> jsnum \<Rightarrow> jsnum" where
  "Math_min a b = (if a = NaN \<or> b = NaN then NaN else if js_lt b a then b else a)"

definition Math_max :: "jsnum \<Rightarrow> jsnum \<Rightarrow> jsnum" where
  "Math_max a b = (if a = NaN \<or> b = NaN then NaN else if js_lt a b then b else a)"

fun Math_floor :: "jsnum \<Rightarrow> jsnum" where
  "Math_floor (Fin x) = Fin (of_int \<lfloor>x\<rfloor>)"
| "Math_floor v = v"

fun Math_sqrt :: "jsnum \<Rightarrow> jsnum" where
  "Math_sqrt (Fin x) = (if x < 0 then NaN else Fin (sqrt x))"
| "Math_sqrt PosInf = PosInf"
| "Math_sqrt _ = NaN"

text \<open>
  A real number as the binary64 format classifies it: infinite from the rounding
  threshold \<open>2^1024 - 2^970\<close> on, zero up to half the least subnormal \<open>2^-1075\<close>,
  and otherwise finite (kept exact).
\<close>

definition toBinary64 :: "real \<Rightarrow> jsnum" where
  "toBinary64 r =
     (if 2 ^ 1024 - 2 ^ 970 \<le> \<bar>r\<bar> then (if 0 < r then PosInf else NegInf)
      else if \<bar>r\<bar> \<le> 1 / 2 ^ 1075 then Fin 0
      else Fin r)"

subsection \<open>Rounding\<close>

text \<open>
  The rounding of the runtime takes the exact result of an operation to the binary64
  value the operation returns, which is infinite when the result is too large. The
  remainder, \<open>Math.min\<close>, \<open>Math.max\<close> and \<open>Math.floor\<close> are exact in binary64.
\<close>

definition rounded :: "(real \<Rightarrow> jsnum) \<Rightarrow> jsnum \<Rightarrow> jsnum" where
  "rounded fl v = (case v of Fin r \<Rightarrow> fl r | _ \<Rightarrow> v)"

definition fl_add :: "(real \<Rightarrow> jsnum) \<Rightarrow> jsnum \<Rightarrow> jsnum \<Rightarrow> jsnum" where
  "fl_add fl a b = rounded fl (js_add a b)"

definition fl_sub :: "(real \<Rightarrow> jsnum) \<Rightarrow> jsnum \<Rightarrow> jsnum \<Rightarrow> jsnum" where
  "fl_sub fl a b = rounded fl (js_sub a b)"

definition fl_mul :: "(real \<Rightarrow> jsnum) \<Rightarrow> jsnum \<Rightarrow> jsnum \<Rightarrow> jsnum" where
  "fl_mul fl a b = rounded fl (js_mul a b)"

definition fl_div :: "(real \<Rightarrow> jsnum) \<Rightarrow> jsnum \<Rightarrow> jsnum \<Rightarrow> jsnum" where
  "fl_div fl a b = rounded fl (js_div a b)"

text \<open>
  What the proofs below use of the rounding to nearest of binary64: it is monotone and
  never \<open>NaN\<close>, it leaves the integers up to \<open>2^53\<close> in magnitude as they are, and a
  finite result is within half a unit in the last place of the exact one (within
  \<open>2^-1075\<close> where binary64 is subnormal).
\<close>

definition binary64_rounding :: "(real \<Rightarrow> jsnum) \<Rightarrow> bool" where
  "binary64_rounding fl \<longleftrightarrow>
     (\<forall>u v. u \<le> v \<longrightarrow> js_le (fl u) (fl v))
     \<and> (\<forall>n::int. \<bar>n\<bar> \<le> 2 ^ 53 \<longrightarrow> fl (of_int n) = Fin (of_int n))
     \<and> (\<forall>u r. fl u = Fin r \<longrightarrow> \<bar>r - u\<bar> \<le> \<bar>u\<bar> / 2 ^ 53 + 1 / 2 ^ 1075)"

section \<open>JavaScript strings\<close>

text \<open>
  A string is the list of its UTF-16 code units, each a natural number (below \<open>2^16\<close>
  in a string of the language; nothing below depends on the bound). \<open>str\<close> gives the
  string of an ASCII literal.
\<close>

type_synonym jsstring = "nat list"

definition codeOf :: "char \<Rightarrow> nat" where
  "codeOf c = of_char c"

definition str :: "string \<Rightarrow> jsstring" where
  "str s = map codeOf s"

text \<open>
  White space is what \<open>String.prototype.trim\<close> and \<open>Number\<close> strip: the classes
  \<open>WhiteSpace\<close> (tab, vertical tab, form feed, the byte order mark \<open>U+FEFF\<close> and the
  space separators of Unicode) and \<open>LineTerminator\<close> of the language.
\<close>

definition isWhiteSpace :: "nat \<Rightarrow> bool" where
  "isWhiteSpace c =
     (c \<in> set [0x09, 0x0A, 0x0B, 0x0C, 0x0D, 0x20, 0xA0, 0x1680, 0x2028, 0x2029, 0x202F,
               0x205F, 0x3000, 0xFEFF]
      \<or> (0x2000 \<le> c \<and> c \<le> 0x200A))"

definition trim :: "jsstring \<Rightarrow> jsstring" where
  "trim s = rev (dropWhile isWhiteSpace (rev (dropWhile isWhiteSpace s)))"

text \<open>
  Case mapping. On a string of ASCII code units \<open>toUpperCase\<close> maps \<open>a\<close> to \<open>z\<close> to
  \<open>A\<close> to \<open>Z\<close> and \<open>toLowerCase\<close> does the converse. The mapping of a string with a
  code unit outside ASCII follows the Unicode tables of the runtime (it can change the
  length of the string, and can map a letter outside ASCII to an ASCII one); it is a
  parameter.
\<close>

definition isAscii :: "nat \<Rightarrow> bool" where
  "isAscii c = (c < 0x80)"

definition upperAscii :: "nat \<Rightarrow> nat" where
  "upperAscii c = (if 0x61 \<le> c \<and> c \<le> 0x7A then c - 0x20 else c)"

definition lowerAscii :: "nat \<Rightarrow> nat" where
  "lowerAscii c = (if 0x41 \<le> c \<and> c \<le> 0x5A then c + 0x20 else c)"

definition toUpperCase :: "(jsstring \<Rightarrow> jsstring) \<Rightarrow> jsstring \<Rightarrow> jsstring" where
  "toUpperCase unicode s = (if list_all isAscii s then map upperAscii s else unicode s)"

definition toLowerCase :: "(jsstring \<Rightarrow> jsstring) \<Rightarrow> jsstring \<Rightarrow> jsstring" where
  "toLowerCase unicode s = (if list_all isAscii s then map lowerAscii s else unicode s)"

fun startsWith :: "jsstring \<Rightarrow> jsstring \<Rightarrow> bool" where
  "startsWith s [] = True"
| "startsWith [] (p # ps) = False"
| "startsWith (c # cs) (p # ps) = (c = p \<and> startsWith cs ps)"

text \<open>\<open>str_includes s sub\<close> is \<open>s.includes(sub)\<close>: \<open>sub\<close> occurs in \<open>s\<close> as a substring.\<close>

fun str_includes :: "jsstring \<Rightarrow> jsstring \<Rightarrow> bool" where
  "str_includes [] sub = (sub = [])"
| "str_includes (c # cs) sub = (startsWith (c # cs) sub \<or> str_includes cs sub)"

subsection \<open>Numbers and strings\<close>

text \<open>The value of a digit \<open>0\<close> to \<open>9\<close>, \<open>a\<close> to \<open>f\<close> or \<open>A\<close> to \<open>F\<close>, and \<open>16\<close> otherwise.\<close>

definition digitValue :: "nat \<Rightarrow> nat" where
  "digitValue c =
     (if 0x30 \<le> c \<and> c \<le> 0x39 then c - 0x30
      else if 0x61 \<le> c \<and> c \<le> 0x66 then c - 0x61 + 10
      else if 0x41 \<le> c \<and> c \<le> 0x46 then c - 0x41 + 10
      else 16)"

definition isDigitOf :: "nat \<Rightarrow> nat \<Rightarrow> bool" where
  "isDigitOf base c = (digitValue c < base)"

definition digitsValue :: "nat \<Rightarrow> jsstring \<Rightarrow> nat" where
  "digitsValue base ds = foldl (\<lambda>a c. base * a + digitValue c) 0 ds"

text \<open>
  \<open>Number(s)\<close> for a string \<open>s\<close>, after the grammar \<open>StringNumericLiteral\<close> of the
  language: white space is trimmed, the empty string is zero, a literal is a signed
  decimal literal (\<open>Infinity\<close>, or digits with an optional fraction and exponent) or an
  unsigned binary, octal or hexadecimal integer, and everything else is \<open>NaN\<close>. The
  value of a literal is kept exact, except that it is infinite or zero where binary64
  makes it so.
\<close>

definition parseExponent :: "jsstring \<Rightarrow> int option" where
  "parseExponent s =
     (case s of
        [] \<Rightarrow> Some 0
      | c # t \<Rightarrow>
          if c = codeOf CHR ''e'' \<or> c = codeOf CHR ''E'' then
            (let negative = (t \<noteq> [] \<and> hd t = codeOf CHR ''-'');
                 ds = (if t \<noteq> [] \<and> (hd t = codeOf CHR ''-'' \<or> hd t = codeOf CHR ''+'')
                       then tl t else t)
             in if ds \<noteq> [] \<and> list_all (isDigitOf 10) ds
                then Some ((if negative then - 1 else 1) * int (digitsValue 10 ds))
                else None)
          else None)"

definition scale10 :: "nat \<Rightarrow> int \<Rightarrow> real" where
  "scale10 m e = (if 0 \<le> e then real m * 10 ^ nat e else real m / 10 ^ nat (- e))"

definition parseUnsignedDecimal :: "jsstring \<Rightarrow> jsnum" where
  "parseUnsignedDecimal s =
     (if s = str ''Infinity'' then PosInf
      else
        let ip = takeWhile (isDigitOf 10) s;
            r1 = dropWhile (isDigitOf 10) s;
            hasDot = (r1 \<noteq> [] \<and> hd r1 = codeOf CHR ''.'');
            fp = (if hasDot then takeWhile (isDigitOf 10) (tl r1) else []);
            r2 = (if hasDot then dropWhile (isDigitOf 10) (tl r1) else r1)
        in if ip = [] \<and> fp = [] then NaN
           else
             (case parseExponent r2 of
                None \<Rightarrow> NaN
              | Some e \<Rightarrow> toBinary64 (scale10 (digitsValue 10 (ip @ fp)) (e - int (length fp)))))"

definition parseNonDecimal :: "nat \<Rightarrow> jsstring \<Rightarrow> jsnum" where
  "parseNonDecimal base ds =
     (if ds \<noteq> [] \<and> list_all (isDigitOf base) ds then toBinary64 (real (digitsValue base ds))
      else NaN)"

definition js_Number :: "jsstring \<Rightarrow> jsnum" where
  "js_Number s =
     (let t = trim s in
      if t = [] then Fin 0
      else if startsWith t (str ''0x'') \<or> startsWith t (str ''0X'') then parseNonDecimal 16 (drop 2 t)
      else if startsWith t (str ''0o'') \<or> startsWith t (str ''0O'') then parseNonDecimal 8 (drop 2 t)
      else if startsWith t (str ''0b'') \<or> startsWith t (str ''0B'') then parseNonDecimal 2 (drop 2 t)
      else if hd t = codeOf CHR ''-'' then js_neg (parseUnsignedDecimal (tl t))
      else if hd t = codeOf CHR ''+'' then parseUnsignedDecimal (tl t)
      else parseUnsignedDecimal t)"

text \<open>
  \<open>String(n)\<close> for a number: the decimal digits of an integer below \<open>10^21\<close> in
  magnitude, and the names of the non-finite values. The digits the language prints for
  any other finite value depend on the binary64 neighbours of the value, so that part
  is a parameter \<open>repr\<close> of the runtime.
\<close>

fun digitsOf :: "nat \<Rightarrow> jsstring" where
  "digitsOf n = (if n < 10 then [0x30 + n] else digitsOf (n div 10) @ [0x30 + n mod 10])"

declare digitsOf.simps [simp del]

definition numberToString :: "(real \<Rightarrow> jsstring) \<Rightarrow> jsnum \<Rightarrow> jsstring" where
  "numberToString repr v =
     (case v of
        NaN \<Rightarrow> str ''NaN''
      | PosInf \<Rightarrow> str ''Infinity''
      | NegInf \<Rightarrow> str ''-Infinity''
      | Fin r \<Rightarrow>
          if r = of_int \<lfloor>r\<rfloor> \<and> \<bar>r\<bar> < 10 ^ 21
          then (if r < 0 then str ''-'' else []) @ digitsOf (nat \<bar>\<lfloor>r\<rfloor>\<bar>)
          else repr r)"

section \<open>The position endpoint (src/app/api/satellites/route.ts)\<close>

datatype jsval =
    JUndefined
  | JNull
  | JBool bool
  | JNumber jsnum
  | JString jsstring
  | JObject

fun toFiniteNumber :: "jsval \<Rightarrow> jsnum option" where
  "toFiniteNumber (JNumber v) = (if Number_isFinite v then Some v else None)"
| "toFiniteNumber (JString s) =
     (let parsed = js_Number s in if Number_isFinite parsed then Some parsed else None)"
| "toFiniteNumber _ = None"

fun toCleanString :: "jsval \<Rightarrow> jsstring option" where
  "toCleanString (JString s) = (let trimmed = trim s in if 0 < length trimmed then Some trimmed else None)"
| "toCleanString _ = None"

definition normalizeLongitude :: "jsnum \<Rightarrow> jsnum" where
  "normalizeLongitude lon =
     (if \<not> Number_isFinite lon then lon
      else if js_gt lon (Fin 180) then js_sub lon (Fin 360)
      else if js_lt lon (Fin (- 180)) then js_add lon (Fin 360)
      else lon)"

text \<open>\<open>!value\<close> holds of \<open>null\<close> and of the empty string.\<close>

definition normalizeObjectType ::
  "(jsstring \<Rightarrow> jsstring) \<Rightarrow> jsstring option \<Rightarrow> jsstring option" where
  "normalizeObjectType up v =
     (case v of
        None \<Rightarrow> None
      | Some s \<Rightarrow>
          if s = [] then None
          else
            let upperValue = toUpperCase up (trim s) in
            if upperValue = str ''PAY'' \<or> upperValue = str ''PAYLOAD'' then Some (str ''PAYLOAD'')
            else if upperValue = str ''DEB'' \<or> upperValue = str ''DEBRIS'' then Some (str ''DEBRIS'')
            else if upperValue = str ''R/B'' \<or> upperValue = str ''ROCKET BODY'' \<or> upperValue = str ''RB''
            then Some (str ''ROCKET BODY'')
            else Some upperValue)"

definition inferObjectTypeFromName :: "(jsstring \<Rightarrow> jsstring) \<Rightarrow> jsstring \<Rightarrow> jsstring" where
  "inferObjectTypeFromName up objectName =
     (let upperName = toUpperCase up objectName in
      if str_includes upperName (str '' DEB'') \<or> str_includes upperName (str ''DEBRIS'') then str ''DEBRIS''
      else if str_includes upperName (str '' R/B'') \<or> str_includes upperName (str ''ROCKET BODY'') then str ''ROCKET BODY''
      else str ''PAYLOAD'')"

definition parseLimit :: "jsstring option \<Rightarrow> jsnum option" where
  "parseLimit limitParam =
     (case limitParam of
        None \<Rightarrow> None
      | Some s \<Rightarrow>
          if s = [] then None
          else
            let parsed = js_Number s in
            if \<not> Number_isFinite parsed \<or> js_le parsed (Fin 0) then None
            else Some (Math_floor parsed))"

text \<open>
  \<open>Number(x.toFixed(d))\<close>: the nearest multiple of \<open>10^-d\<close>, a tie going away from zero;
  from \<open>10^21\<close> on \<open>toFixed\<close> prints the number itself.
\<close>

fun roundFixed :: "nat \<Rightarrow> jsnum \<Rightarrow> jsnum" where
  "roundFixed d (Fin r) =
     (if 10 ^ 21 \<le> \<bar>r\<bar> then Fin r
      else Fin (sgn r * of_int \<lfloor>\<bar>r\<bar> * 10 ^ d + 1 / 2\<rfloor> / 10 ^ d))"
| "roundFixed d v = v"

subsection \<open>Data\<close>

text \<open>
  Instants (\<open>Date.now()\<close>, a \<open>Date\<close>, an ISO timestamp) are milliseconds since the epoch.
  Fields that several object types of the source share are declared once, in a parent
  record: \<open>CachedOrbitRecord\<close> and \<open>SatellitePosition\<close> (the client's \<open>Satellite\<close>) share
  the descriptive fields, \<open>CachedOrbitSet\<close> and the response value share \<open>fetchedAt\<close> and
  \<open>source\<close>. The element set of a raw record and the propagator's \<open>SatRec\<close> are opaque
  (\<open>'e\<close> and \<open>'s\<close>).
\<close>

type_synonym instant = int

record 'e omm =
  NORAD_CAT_ID :: jsval
  OBJECT_NAME :: jsval
  OBJECT_TYPE :: jsval
  COUNTRY_CODE :: jsval
  INCLINATION :: jsval
  LAUNCH_DATE :: jsval
  elements :: 'e

record descriptive =
  countryCode :: "jsstring option"
  inclination :: "jsnum option"
  launchDate :: "jsstring option"
  noradId :: jsnum
  objectName :: jsstring
  objectType :: "jsstring option"

record 's cachedOrbitRecord = descriptive +
  satrec :: 's

record satellite = descriptive +
  altitudeKm :: jsnum
  lat :: jsnum
  lon :: jsnum
  speedKps :: jsnum

record provenance =
  fetchedAt :: instant
  source :: jsstring

record 's cachedOrbitSet = provenance +
  records :: "'s cachedOrbitRecord list"

record snapshot = provenance +
  computedAt :: instant
  count :: nat
  group :: jsstring
  satellites :: "satellite list"
  totalOrbits :: nat

record 'v cacheEntry =
  expiresAt :: instant
  cached :: 'v

record 's caches =
  orbitCache :: "jsstring \<rightharpoonup> 's cachedOrbitSet cacheEntry"
  positionCache :: "jsstring \<rightharpoonup> snapshot cacheEntry"

definition DEFAULT_GROUP :: jsstring where
  "DEFAULT_GROUP = str ''active''"

definition REQUEST_TIMEOUT_MS :: int where
  "REQUEST_TIMEOUT_MS = 25000"

definition ORBIT_CACHE_TTL_MS :: int where
  "ORBIT_CACHE_TTL_MS = 30 * 60 * 1000"

definition POSITION_CACHE_TTL_MS :: int where
  "POSITION_CACHE_TTL_MS = 5000"

definition ALLOWED_GROUPS :: "jsstring set" where
  "ALLOWED_GROUPS = {str ''active'', str ''stations'', str ''starlink''}"

subsection \<open>The world outside\<close>

text \<open>
  A thrown value is an \<open>Error\<close> with its message, or something else. A fetch rejects
  (a network failure, or the abort of the timeout) or resolves to a response with a
  status; reading the body as JSON rejects or yields the payload, which the source
  takes to be an array of records.
\<close>

datatype thrown = ErrorObject jsstring | OtherThrown

datatype 'e responseBody = JsonFails thrown | JsonPayload "'e omm list"

datatype 'e fetchResult = FetchFails thrown | Response nat "'e responseBody"

record vec3 =
  x :: jsnum
  y :: jsnum
  z :: jsnum

record eciState =
  position :: "vec3 option"
  velocity :: "vec3 option"

record geodetic =
  latitude :: jsnum
  longitude :: jsnum
  height :: jsnum

text \<open>
  What one request meets: the four clock readings in the order the handler takes them
  (\<open>Date.now()\<close> in \<open>GET\<close>, \<open>Date.now()\<close> in \<open>loadOrbitSet\<close>, the \<open>new Date()\<close> of
  \<open>fetchedAt\<close> and the one of \<open>computedAt\<close>), what \<open>fetchWithTimeout\<close> gives for a URL
  within the given timeout, and the functions of the orbit library. The runtime adds
  the case mapping of strings that are not ASCII and the printing of numbers that are
  not small integers.
\<close>

record runtime =
  unicodeUpper :: "jsstring \<Rightarrow> jsstring"
  unicodeLower :: "jsstring \<Rightarrow> jsstring"
  reprNumber :: "real \<Rightarrow> jsstring"

record ('e, 's) env = runtime +
  nowGET :: instant
  nowLoad :: instant
  nowFetched :: instant
  nowComputed :: instant
  fetchWithTimeout :: "jsstring \<Rightarrow> int \<Rightarrow> 'e fetchResult"
  json2satrec :: "'e omm \<Rightarrow> 's option"
  propagate :: "'s \<Rightarrow> instant \<Rightarrow> eciState option"
  gstime :: "instant \<Rightarrow> jsnum"
  eciToGeodetic :: "vec3 \<Rightarrow> jsnum \<Rightarrow> geodetic"
  radiansToDegrees :: "jsnum \<Rightarrow> jsnum"

subsection \<open>loadOrbitSet\<close>

definition buildGroupFeedUrl :: "jsstring \<Rightarrow> jsstring" where
  "buildGroupFeedUrl g = str ''https://celestrak.org/NORAD/elements/gp.php?GROUP='' @ g @ str ''&FORMAT=json''"

text \<open>
  The body of the loop over the payload: \<open>None\<close> is \<open>continue\<close> (the identifier is
  missing, or \<open>json2satrec\<close> threw inside the \<open>try\<close>), \<open>Some\<close> is the record pushed.
\<close>

definition normalizeEntry ::
  "(jsstring \<Rightarrow> jsstring) \<Rightarrow> (real \<Rightarrow> jsstring) \<Rightarrow> ('e omm \<Rightarrow> 's option) \<Rightarrow> 'e omm
     \<Rightarrow> 's cachedOrbitRecord option" where
  "normalizeEntry up repr j2s entry =
     (case toFiniteNumber (NORAD_CAT_ID entry) of
        None \<Rightarrow> None
      | Some nid \<Rightarrow>
          let name = (case toCleanString (OBJECT_NAME entry) of
                        Some n \<Rightarrow> n
                      | None \<Rightarrow> str ''NORAD-'' @ numberToString repr nid);
              otype = (case normalizeObjectType up (toCleanString (OBJECT_TYPE entry)) of
                         Some t \<Rightarrow> t
                       | None \<Rightarrow> inferObjectTypeFromName up name)
          in (case j2s entry of
                None \<Rightarrow> None
              | Some sr \<Rightarrow>
                  Some \<lparr>countryCode = toCleanString (COUNTRY_CODE entry),
                        inclination = toFiniteNumber (INCLINATION entry),
                        launchDate = toCleanString (LAUNCH_DATE entry),
                        noradId = nid,
                        objectName = name,
                        objectType = Some otype,
                        satrec = sr\<rparr>))"

fun normalizeLoop ::
  "(jsstring \<Rightarrow> jsstring) \<Rightarrow> (real \<Rightarrow> jsstring) \<Rightarrow> ('e omm \<Rightarrow> 's option) \<Rightarrow> 'e omm list
     \<Rightarrow> 's cachedOrbitRecord list \<Rightarrow> 's cachedOrbitRecord list" where
  "normalizeLoop up repr j2s [] recs = recs"
| "normalizeLoop up repr j2s (entry # rest) recs =
     (case normalizeEntry up repr j2s entry of
        None \<Rightarrow> normalizeLoop up repr j2s rest recs
      | Some r \<Rightarrow> normalizeLoop up repr j2s rest (recs @ [r]))"

definition response_ok :: "nat \<Rightarrow> bool" where
  "response_ok status = (200 \<le> status \<and> status \<le> 299)"

definition loadOrbitSet ::
  "('e, 's) env \<Rightarrow> jsstring \<Rightarrow> 's caches \<Rightarrow> thrown + ('s cachedOrbitSet \<times> 's caches)" where
  "loadOrbitSet env g st =
     (let now = nowLoad env in
      case (case orbitCache st g of
              Some c \<Rightarrow> if now < expiresAt c then Some (cached c) else None
            | None \<Rightarrow> None) of
        Some hit \<Rightarrow> Inr (hit, st)
      | None \<Rightarrow>
          let src = buildGroupFeedUrl g in
          (case fetchWithTimeout env src REQUEST_TIMEOUT_MS of
             FetchFails e \<Rightarrow> Inl e
           | Response status body \<Rightarrow>
               if \<not> response_ok status
               then Inl (ErrorObject (str ''CelesTrak orbit request failed ('' @
                           numberToString (reprNumber env) (Fin (real status)) @ str '')''))
               else
                 (case body of
                    JsonFails e \<Rightarrow> Inl e
                  | JsonPayload payload \<Rightarrow>
                      let v = \<lparr>fetchedAt = nowFetched env, source = src,
                               records = normalizeLoop (unicodeUpper env) (reprNumber env) (json2satrec env)
                                         payload []\<rparr>
                      in Inr (v, st\<lparr>orbitCache := (orbitCache st)
                                   (g \<mapsto> \<lparr>expiresAt = now + ORBIT_CACHE_TTL_MS, cached = v\<rparr>)\<rparr>))))"

subsection \<open>computePositions\<close>

text \<open>
  The body of the loop for one record: \<open>None\<close> is \<open>continue\<close> (no state, no position, no
  velocity, or a latitude or longitude that is not finite), \<open>Some\<close> is the position
  pushed.
\<close>

definition positionOf ::
  "('e, 's) env \<Rightarrow> jsnum \<Rightarrow> instant \<Rightarrow> 's cachedOrbitRecord \<Rightarrow> satellite option" where
  "positionOf env gmst nowDate r =
     (case propagate env (satrec r) nowDate of
        None \<Rightarrow> None
      | Some state \<Rightarrow>
          (case position state of
             None \<Rightarrow> None
           | Some pos \<Rightarrow>
               (case velocity state of
                  None \<Rightarrow> None
                | Some vel \<Rightarrow>
                    let geo = eciToGeodetic env pos gmst;
                        la = radiansToDegrees env (latitude geo);
                        lo = normalizeLongitude (radiansToDegrees env (longitude geo))
                    in if \<not> Number_isFinite la \<or> \<not> Number_isFinite lo then None
                       else
                         let speed = Math_sqrt (js_add (js_add (js_mul (x vel) (x vel))
                                       (js_mul (y vel) (y vel))) (js_mul (z vel) (z vel)))
                         in Some \<lparr>countryCode = countryCode r,
                                  inclination = inclination r,
                                  launchDate = launchDate r,
                                  noradId = noradId r,
                                  objectName = objectName r,
                                  objectType = objectType r,
                                  altitudeKm = roundFixed 2 (height geo),
                                  lat = roundFixed 5 la,
                                  lon = roundFixed 5 lo,
                                  speedKps = roundFixed 3 speed\<rparr>)))"

definition requestedCount :: "'a list \<Rightarrow> jsnum option \<Rightarrow> jsnum" where
  "requestedCount recs limit =
     (case limit of
        None \<Rightarrow> Fin (real (length recs))
      | Some l \<Rightarrow> Math_min (Fin (real (length recs))) l)"

lemma requestedCount_bound:
  "js_lt (Fin (real i)) (requestedCount recs limit) \<Longrightarrow> i < length recs"
  by (cases limit; cases "the limit")
     (auto simp: requestedCount_def Math_min_def split: if_splits)

function computeLoop ::
  "('e, 's) env \<Rightarrow> jsnum \<Rightarrow> 's cachedOrbitRecord list \<Rightarrow> instant \<Rightarrow> jsnum option \<Rightarrow> nat
     \<Rightarrow> satellite list \<Rightarrow> satellite list" where
  "computeLoop env gmst recs nowDate limit index sats =
     (if js_lt (Fin (real index)) (requestedCount recs limit)
      then computeLoop env gmst recs nowDate limit (index + 1)
             (case positionOf env gmst nowDate (recs ! index) of
                None \<Rightarrow> sats
              | Some p \<Rightarrow> sats @ [p])
      else sats)"
  by pat_completeness auto
termination
  by (relation "measure (\<lambda>(env, gmst, recs, nowDate, limit, index, sats). length recs - index)")
     (auto dest: requestedCount_bound)

declare computeLoop.simps [simp del]

definition computePositions ::
  "('e, 's) env \<Rightarrow> 's cachedOrbitRecord list \<Rightarrow> instant \<Rightarrow> jsnum option \<Rightarrow> satellite list" where
  "computePositions env recs nowDate limit =
     computeLoop env (gstime env nowDate) recs nowDate limit 0 []"

subsection \<open>The handler\<close>

record request =
  groupParam :: "jsstring option"
  limitParam :: "jsstring option"

datatype responseData = SnapshotJson snapshot | ErrorJson jsstring

record response =
  status :: nat
  cacheControl :: "jsstring option"
  body :: responseData

definition NO_STORE :: jsstring where
  "NO_STORE = str ''no-store, no-cache, must-revalidate, max-age=0''"

definition positionCacheKey :: "(real \<Rightarrow> jsstring) \<Rightarrow> jsstring \<Rightarrow> jsnum option \<Rightarrow> jsstring" where
  "positionCacheKey repr g limit =
     g @ str '':'' @ (case limit of None \<Rightarrow> str ''all'' | Some l \<Rightarrow> numberToString repr l)"

definition requestGroup :: "(jsstring \<Rightarrow> jsstring) \<Rightarrow> request \<Rightarrow> jsstring" where
  "requestGroup lo req =
     (let requestedGroup = toLowerCase lo (case groupParam req of Some g \<Rightarrow> g | None \<Rightarrow> DEFAULT_GROUP)
      in if requestedGroup \<in> ALLOWED_GROUPS then requestedGroup else DEFAULT_GROUP)"

definition errorResponse :: "thrown \<Rightarrow> response" where
  "errorResponse e =
     (let message = (case e of
                       ErrorObject m \<Rightarrow> m
                     | OtherThrown \<Rightarrow> str ''Unknown failure while computing satellite positions'')
      in \<lparr>status = 502, cacheControl = None,
          body = ErrorJson (str ''Unable to fetch live satellite positions: '' @ message)\<rparr>)"

definition GET :: "('e, 's) env \<Rightarrow> 's caches \<Rightarrow> request \<Rightarrow> response \<times> 's caches" where
  "GET env st req =
     (let g = requestGroup (unicodeLower env) req;
          limit = parseLimit (limitParam req);
          key = positionCacheKey (reprNumber env) g limit;
          now = nowGET env
      in case (case positionCache st key of
                 Some c \<Rightarrow> if now < expiresAt c then Some (cached c) else None
               | None \<Rightarrow> None) of
           Some hit \<Rightarrow> (\<lparr>status = 200, cacheControl = Some NO_STORE, body = SnapshotJson hit\<rparr>, st)
         | None \<Rightarrow>
             (case loadOrbitSet env g st of
                Inl e \<Rightarrow> (errorResponse e, st)
              | Inr (orbitSet, st1) \<Rightarrow>
                  let sats = computePositions env (records orbitSet) (nowComputed env) limit;
                      v = \<lparr>fetchedAt = fetchedAt orbitSet,
                           source = source orbitSet,
                           computedAt = nowComputed env,
                           count = length sats,
                           group = g,
                           satellites = sats,
                           totalOrbits = length (records orbitSet)\<rparr>
                  in (\<lparr>status = 200, cacheControl = Some NO_STORE, body = SnapshotJson v\<rparr>,
                      st1\<lparr>positionCache := (positionCache st1)
                           (key \<mapsto> \<lparr>expiresAt = now + POSITION_CACHE_TTL_MS, cached = v\<rparr>)\<rparr>)))"

section \<open>The transition engine (src/app/components/satellite-globe.tsx)\<close>

datatype satelliteBucket = Payload | Debris | Rocket | Other

record satellitePoint = satellite +
  bucket :: satelliteBucket
  color :: jsstring
  lng :: jsnum
  pointAltitude :: jsnum

text \<open>
  A \<open>Map\<close> from identifiers to points is a list of entries with distinct keys, in the
  order of insertion: \<open>set\<close> is \<open>AList.update\<close>, \<open>get\<close> is \<open>map_of\<close>, \<open>size\<close> is
  \<open>length\<close>.
\<close>

type_synonym pointMap = "(jsnum \<times> satellitePoint) list"

record transitionState =
  durationMs :: jsnum
  fromMap :: pointMap
  startMs :: jsnum
  toMap :: pointMap

text \<open>
  The runtime of the client: the case mapping and the printing of numbers as on the
  server, the rounding of arithmetic results to binary64, and \<open>Math.pow\<close>, whose
  accuracy the language leaves to the implementation.
\<close>

record browser = runtime +
  roundNumber :: "real \<Rightarrow> jsnum"
  Math_pow :: "jsnum \<Rightarrow> jsnum \<Rightarrow> jsnum"

definition EARTH_RADIUS_KM :: jsnum where
  "EARTH_RADIUS_KM = Fin 6371"

definition MOTION_DURATION_MS :: jsnum where
  "MOTION_DURATION_MS = Fin 8500"

definition PAYLOAD_COLOR :: jsstring where
  "PAYLOAD_COLOR = str ''#fde047''"

definition DEBRIS_COLOR :: jsstring where
  "DEBRIS_COLOR = str ''#fb7185''"

definition ROCKET_COLOR :: jsstring where
  "ROCKET_COLOR = str ''#a78bfa''"

definition OTHER_COLOR :: jsstring where
  "OTHER_COLOR = str ''#cbd5e1''"

text \<open>The client's \<open>normalizeLongitude\<close>, which has no test for finiteness.\<close>

definition normalizeLongitude_globe :: "(real \<Rightarrow> jsnum) \<Rightarrow> jsnum \<Rightarrow> jsnum" where
  "normalizeLongitude_globe fl l =
     (if js_gt l (Fin 180) then fl_sub fl l (Fin 360)
      else if js_lt l (Fin (- 180)) then fl_add fl l (Fin 360)
      else l)"

definition easeInOutCubic ::
  "(real \<Rightarrow> jsnum) \<Rightarrow> (jsnum \<Rightarrow> jsnum \<Rightarrow> jsnum) \<Rightarrow> jsnum \<Rightarrow> jsnum" where
  "easeInOutCubic fl pw v =
     (if js_lt v (Fin (1 / 2)) then fl_mul fl (fl_mul fl (fl_mul fl (Fin 4) v) v) v
      else fl_sub fl (Fin 1)
             (fl_div fl (pw (fl_add fl (fl_mul fl (Fin (- 2)) v) (Fin 2)) (Fin 3)) (Fin 2)))"

definition longitudeDelta :: "(real \<Rightarrow> jsnum) \<Rightarrow> jsnum \<Rightarrow> jsnum \<Rightarrow> jsnum" where
  "longitudeDelta fl a b =
     fl_sub fl (js_rem (fl_add fl (fl_sub fl b a) (Fin 540)) (Fin 360)) (Fin 180)"

definition getSatelliteBucket :: "(jsstring \<Rightarrow> jsstring) \<Rightarrow> jsstring option \<Rightarrow> satelliteBucket" where
  "getSatelliteBucket up ot =
     (case ot of
        None \<Rightarrow> Other
      | Some t \<Rightarrow>
          if t = [] then Other
          else
            let upperType = toUpperCase up t in
            if upperType = str ''PAYLOAD'' \<or> upperType = str ''PAY'' then Payload
            else if str_includes upperType (str ''DEBRIS'') \<or> upperType = str ''DEB'' then Debris
            else if str_includes upperType (str ''ROCKET'') \<or> upperType = str ''R/B''
                    \<or> upperType = str ''RB'' \<or> str_includes upperType (str ''R/B'')
            then Rocket
            else Other)"

fun bucketColor :: "satelliteBucket \<Rightarrow> jsstring" where
  "bucketColor Payload = PAYLOAD_COLOR"
| "bucketColor Debris = DEBRIS_COLOR"
| "bucketColor Rocket = ROCKET_COLOR"
| "bucketColor Other = OTHER_COLOR"

text \<open>The literal \<open>0.0015\<close> denotes the binary64 value nearest to it.\<close>

definition makeSatellitePoint :: "browser \<Rightarrow> satellite \<Rightarrow> satellitePoint" where
  "makeSatellitePoint bw s =
     (let b = getSatelliteBucket (unicodeUpper bw) (objectType s) in
      \<lparr>countryCode = countryCode s,
       inclination = inclination s,
       launchDate = launchDate s,
       noradId = noradId s,
       objectName = objectName s,
       objectType = objectType s,
       altitudeKm = altitudeKm s,
       lat = lat s,
       lon = lon s,
       speedKps = speedKps s,
       bucket = b,
       color = bucketColor b,
       lng = normalizeLongitude_globe (roundNumber bw) (lon s),
       pointAltitude = Math_max (roundNumber bw (15 / 10000))
                         (fl_div (roundNumber bw) (altitudeKm s) EARTH_RADIUS_KM)\<rparr>)"

text \<open>
  The refs and the state of the component that the engine touches.
  \<open>animationFrameRef\<close> holds the handle of the scheduled frame, which
  \<open>requestAnimationFrame\<close> returns; the handle and the readings of the clock are
  arguments of the callbacks.
\<close>

record engine =
  transitionRef :: "transitionState option"
  animationFrameRef :: "nat option"
  renderedMapRef :: pointMap
  renderedSatellites :: "satellitePoint list"

text \<open>The point of one frame: the body of the loop of \<open>animateStep\<close>.\<close>

definition interpolatePoint ::
  "(real \<Rightarrow> jsnum) \<Rightarrow> jsnum \<Rightarrow> satellitePoint \<Rightarrow> satellitePoint \<Rightarrow> satellitePoint" where
  "interpolatePoint fl eased src target =
     (let nextLat = fl_add fl (lat src) (fl_mul fl (fl_sub fl (lat target) (lat src)) eased);
          nextLng = normalizeLongitude_globe fl
                      (fl_add fl (lng src) (fl_mul fl (longitudeDelta fl (lng src) (lng target)) eased));
          nextAltitudeKm = fl_add fl (altitudeKm src)
                             (fl_mul fl (fl_sub fl (altitudeKm target) (altitudeKm src)) eased)
      in target\<lparr>altitudeKm := nextAltitudeKm,
                lat := nextLat,
                lng := nextLng,
                pointAltitude := Math_max (fl (15 / 10000)) (fl_div fl nextAltitudeKm EARTH_RADIUS_KM)\<rparr>)"

fun animateLoop ::
  "(real \<Rightarrow> jsnum) \<Rightarrow> jsnum \<Rightarrow> pointMap \<Rightarrow> pointMap \<Rightarrow> pointMap \<times> satellitePoint list
     \<Rightarrow> pointMap \<times> satellitePoint list" where
  "animateLoop fl eased fm [] acc = acc"
| "animateLoop fl eased fm ((nid, target) # rest) (nextMap, nextList) =
     (let src = (case map_of fm nid of Some f \<Rightarrow> f | None \<Rightarrow> target);
          point = interpolatePoint fl eased src target
      in animateLoop fl eased fm rest (AList.update nid point nextMap, nextList @ [point]))"

text \<open>The progress of a frame and its eased value, as \<open>animateStep\<close> computes them.\<close>

definition frameProgress :: "(real \<Rightarrow> jsnum) \<Rightarrow> transitionState \<Rightarrow> jsnum \<Rightarrow> jsnum" where
  "frameProgress fl tr frameTimeMs =
     Math_min (Fin 1) (fl_div fl (fl_sub fl frameTimeMs (startMs tr)) (durationMs tr))"

definition animateStep :: "browser \<Rightarrow> jsnum \<Rightarrow> nat \<Rightarrow> engine \<Rightarrow> engine" where
  "animateStep bw frameTimeMs handle st =
     (case transitionRef st of
        None \<Rightarrow> st\<lparr>animationFrameRef := None\<rparr>
      | Some tr \<Rightarrow>
          let progress = frameProgress (roundNumber bw) tr frameTimeMs;
              eased = easeInOutCubic (roundNumber bw) (Math_pow bw) progress;
              (nextMap, nextList) = animateLoop (roundNumber bw) eased (fromMap tr) (toMap tr) ([], []);
              st1 = st\<lparr>renderedMapRef := nextMap, renderedSatellites := nextList\<rparr>
          in if js_lt progress (Fin 1) then st1\<lparr>animationFrameRef := Some handle\<rparr>
             else st1\<lparr>transitionRef := None, animationFrameRef := None\<rparr>)"

fun targetLoop :: "browser \<Rightarrow> satellite list \<Rightarrow> pointMap \<Rightarrow> pointMap" where
  "targetLoop bw [] targetMap = targetMap"
| "targetLoop bw (s # rest) targetMap =
     targetLoop bw rest (AList.update (noradId s) (makeSatellitePoint bw s) targetMap)"

fun fromLoop :: "pointMap \<Rightarrow> pointMap \<Rightarrow> pointMap \<Rightarrow> pointMap" where
  "fromLoop rendered [] fm = fm"
| "fromLoop rendered ((nid, target) # rest) fm =
     fromLoop rendered rest
       (AList.update nid (case map_of rendered nid of Some p \<Rightarrow> p | None \<Rightarrow> target) fm)"

definition startTransition :: "browser \<Rightarrow> satellite list \<Rightarrow> jsnum \<Rightarrow> nat \<Rightarrow> engine \<Rightarrow> engine" where
  "startTransition bw incomingSatellites performanceNow handle st =
     (let targetMap = targetLoop bw incomingSatellites [] in
      if length (renderedMapRef st) = 0
      then st\<lparr>renderedMapRef := targetMap, renderedSatellites := map snd targetMap\<rparr>
      else
        let st1 = st\<lparr>transitionRef :=
                      Some \<lparr>durationMs = MOTION_DURATION_MS,
                            fromMap = fromLoop (renderedMapRef st) targetMap [],
                            startMs = performanceNow,
                            toMap = targetMap\<rparr>\<rparr>
        in if animationFrameRef st = None then st1\<lparr>animationFrameRef := Some handle\<rparr> else st1)"

text \<open>
  A target map is keyed when its keys are distinct and every point is stored under its
  own identifier.
\<close>

definition keyed :: "pointMap \<Rightarrow> bool" where
  "keyed tm \<longleftrightarrow> distinct (map fst tm) \<and> (\<forall>(k, p) \<in> set tm. noradId p = k)"

text \<open>The frames the browser delivers one after the other, each with its time and handle.\<close>

fun runFrames :: "browser \<Rightarrow> (jsnum \<times> nat) list \<Rightarrow> engine \<Rightarrow> engine" where
  "runFrames bw [] st = st"
| "runFrames bw ((t, h) # rest) st = runFrames bw rest (animateStep bw t h st)"

section \<open>The server as a sequence of requests\<close>

text \<open>
  The caches start empty and change only in the handler. \<open>serve\<close> runs the handler on a
  history of requests, each with the world it met, one request after the other (an
  interleaving of two requests at the \<open>await\<close> of the fetch is not modelled).
\<close>

definition emptyCaches :: "'s caches" where
  "emptyCaches = \<lparr>orbitCache = Map.empty, positionCache = Map.empty\<rparr>"

fun serve :: "(('e, 's) env \<times> request) list \<Rightarrow> 's caches \<Rightarrow> 's caches" where
  "serve [] st = st"
| "serve ((env, req) # rest) st = serve rest (snd (GET env st req))"

text \<open>
  What holds of the caches of a server at every moment: every cached record has a
  classification, and every cached snapshot has the count of its positions, each with a
  classification.
\<close>

definition classified :: "'a descriptive_scheme \<Rightarrow> bool" where
  "classified r \<longleftrightarrow> objectType r \<noteq> None"

definition cachesInv :: "'s caches \<Rightarrow> bool" where
  "cachesInv st \<longleftrightarrow>
     (\<forall>g c. orbitCache st g = Some c \<longrightarrow> (\<forall>r \<in> set (records (cached c)). classified r))
     \<and> (\<forall>k c. positionCache st k = Some c \<longrightarrow>
            count (cached c) = length (satellites (cached c))
            \<and> (\<forall>p \<in> set (satellites (cached c)). classified p))"

section \<open>The inference of a classification as the specification words it\<close>

text \<open>
  The specification infers \<open>DEBRIS\<close> from an upper-cased name that contains \<open>DEB\<close> as a
  token or \<open>DEBRIS\<close> as a substring, \<open>ROCKET BODY\<close> from one that contains \<open>R/B\<close> or
  \<open>ROCKET BODY\<close>, and \<open>PAYLOAD\<close> otherwise. The tokens of a name are the runs of code
  units between its spaces. These definitions follow the words of the specification,
  not the source; they are compared with \<open>inferObjectTypeFromName\<close> below.
\<close>

fun specTokensFrom :: "jsstring \<Rightarrow> jsstring \<Rightarrow> jsstring list" where
  "specTokensFrom cur [] = [cur]"
| "specTokensFrom cur (c # cs) =
     (if c = 0x20 then cur # specTokensFrom [] cs else specTokensFrom (cur @ [c]) cs)"

definition specContainsToken :: "jsstring \<Rightarrow> jsstring \<Rightarrow> bool" where
  "specContainsToken s t = (t \<in> set (specTokensFrom [] s))"

definition specInferObjectType :: "(jsstring \<Rightarrow> jsstring) \<Rightarrow> jsstring \<Rightarrow> jsstring" where
  "specInferObjectType up name =
     (let upperName = toUpperCase up name in
      if specContainsToken upperName (str ''DEB'') \<or> str_includes upperName (str ''DEBRIS'')
      then str ''DEBRIS''
      else if str_includes upperName (str ''R/B'') \<or> str_includes upperName (str ''ROCKET BODY'')
      then str ''ROCKET BODY''
      else str ''PAYLOAD'')"

section \<open>Sample inputs\<close>

text \<open>
  Concrete inputs on which the theorems below are instantiated. The element set of a
  sample record is a number and so is its \<open>SatRec\<close>. The sample orbit library builds
  no \<open>SatRec\<close> from the element set \<open>0\<close>, does not propagate the \<open>SatRec\<close> \<open>13\<close>, and
  places every other \<open>SatRec\<close> at the longitude of its own number.
\<close>

definition sampleEntry :: "jsval \<Rightarrow> jsval \<Rightarrow> jsval \<Rightarrow> nat \<Rightarrow> nat omm" where
  "sampleEntry ident name otype el =
     \<lparr>NORAD_CAT_ID = ident, OBJECT_NAME = name, OBJECT_TYPE = otype,
      COUNTRY_CODE = JString (str ''US''), INCLINATION = JNumber (Fin 51), LAUNCH_DATE = JNull,
      elements = el\<rparr>"

definition sampleEnv :: "instant \<Rightarrow> nat fetchResult \<Rightarrow> (nat, nat) env" where
  "sampleEnv t fr =
     \<lparr>unicodeUpper = (\<lambda>s. s), unicodeLower = (\<lambda>s. s), reprNumber = (\<lambda>r. str ''?''),
      nowGET = t, nowLoad = t + 1, nowFetched = t + 2, nowComputed = t + 3,
      fetchWithTimeout = (\<lambda>url timeout. fr),
      json2satrec = (\<lambda>entry. if elements entry = 0 then None else Some (elements entry)),
      propagate = (\<lambda>sr nowDate. if sr = 13 then None
                    else Some \<lparr>position = Some \<lparr>x = Fin 10, y = Fin (real sr), z = Fin 400\<rparr>,
                              velocity = Some \<lparr>x = Fin 1, y = Fin 0, z = Fin 0\<rparr>\<rparr>),
      gstime = (\<lambda>nowDate. Fin 0),
      eciToGeodetic = (\<lambda>pos gmst. \<lparr>latitude = x pos, longitude = y pos, height = z pos\<rparr>),
      radiansToDegrees = (\<lambda>r. r)\<rparr>"

definition sampleRecord :: "real \<Rightarrow> nat \<Rightarrow> nat cachedOrbitRecord" where
  "sampleRecord nid sr =
     \<lparr>countryCode = None, inclination = None, launchDate = None, noradId = Fin nid,
      objectName = str ''SAT'', objectType = Some (str ''PAYLOAD''), satrec = sr\<rparr>"

definition samplePayload :: "nat omm list" where
  "samplePayload =
     [sampleEntry (JNumber (Fin 25544)) (JString (str ''ISS (ZARYA)'')) (JString (str '' pay'')) 7,
      sampleEntry (JString (str ''NaN'')) (JString (str ''A'')) JUndefined 8,
      sampleEntry (JString (str ''49044'')) (JString (str ''CZ-4B R/B'')) JUndefined 200,
      sampleEntry (JNumber (Fin 5)) JNull JNull 0]"

definition sampleRequest :: request where
  "sampleRequest = \<lparr>groupParam = Some (str ''Stations''), limitParam = Some (str ''5'')\<rparr>"

definition sampleRecords :: "nat cachedOrbitRecord list" where
  "sampleRecords =
     [\<lparr>countryCode = Some (str ''US''), inclination = Some (Fin 51), launchDate = None,
       noradId = Fin 25544, objectName = str ''ISS (ZARYA)'', objectType = Some (str ''PAYLOAD''), satrec = 7\<rparr>,
      \<lparr>countryCode = Some (str ''US''), inclination = Some (Fin 51), launchDate = None,
       noradId = Fin 49044, objectName = str ''CZ-4B R/B'', objectType = Some (str ''ROCKET BODY''),
       satrec = 200\<rparr>]"

definition sampleOrbitSet :: "nat cachedOrbitSet" where
  "sampleOrbitSet =
     \<lparr>fetchedAt = 1002,
      source = str ''https://celestrak.org/NORAD/elements/gp.php?GROUP=stations&FORMAT=json'',
      records = sampleRecords\<rparr>"

definition sampleSnapshot :: "instant \<Rightarrow> snapshot" where
  "sampleSnapshot t =
     \<lparr>fetchedAt = 1002,
      source = str ''https://celestrak.org/NORAD/elements/gp.php?GROUP=stations&FORMAT=json'',
      computedAt = t,
      count = 2,
      group = str ''stations'',
      satellites =
        [\<lparr>countryCode = Some (str ''US''), inclination = Some (Fin 51), launchDate = None,
          noradId = Fin 25544, objectName = str ''ISS (ZARYA)'', objectType = Some (str ''PAYLOAD''),
          altitudeKm = Fin 400, lat = Fin 10, lon = Fin 7, speedKps = Fin 1\<rparr>,
         \<lparr>countryCode = Some (str ''US''), inclination = Some (Fin 51), launchDate = None,
          noradId = Fin 49044, objectName = str ''CZ-4B R/B'', objectType = Some (str ''ROCKET BODY''),
          altitudeKm = Fin 400, lat = Fin 10, lon = Fin (- 160), speedKps = Fin 1\<rparr>],
      totalOrbits = 2\<rparr>"

definition sampleCaches :: "nat caches" where
  "sampleCaches =
     \<lparr>orbitCache = [str ''stations'' \<mapsto> \<lparr>expiresAt = 1801001, cached = sampleOrbitSet\<rparr>],
      positionCache = [str ''stations:5'' \<mapsto> \<lparr>expiresAt = 6000, cached = sampleSnapshot 1003\<rparr>]\<rparr>"

definition sampleSatellite :: "real \<Rightarrow> real \<Rightarrow> real \<Rightarrow> satellite" where
  "sampleSatellite nid la lo =
     \<lparr>countryCode = None, inclination = None, launchDate = None, noradId = Fin nid,
      objectName = str ''SAT'', objectType = Some (str ''PAYLOAD''),
      altitudeKm = Fin 400, lat = Fin la, lon = Fin lo, speedKps = Fin 7\<rparr>"

text \<open>
  A sample browser whose arithmetic is exact (on the sample inputs every result is a
  binary64 value) and whose \<open>Math.pow\<close> is the exact power for an exponent that is a
  natural number.
\<close>

definition samplePow :: "jsnum \<Rightarrow> jsnum \<Rightarrow> jsnum" where
  "samplePow a b =
     (case (a, b) of
        (Fin u, Fin v) \<Rightarrow> if 0 \<le> v \<and> v = of_int (floor v) then Fin (u ^ nat (floor v)) else NaN
      | _ \<Rightarrow> NaN)"

definition sampleBrowser :: browser where
  "sampleBrowser =
     \<lparr>unicodeUpper = (\<lambda>s. s), unicodeLower = (\<lambda>s. s), reprNumber = (\<lambda>r. str ''?''),
      roundNumber = Fin, Math_pow = samplePow\<rparr>"

definition sampleEngine :: "satellite list \<Rightarrow> engine" where
  "sampleEngine sats =
     startTransition sampleBrowser sats (Fin 0) 1
       \<lparr>transitionRef = None, animationFrameRef = None, renderedMapRef = [], renderedSatellites = []\<rparr>"

section \<open>Properties of the normalizer and of the request parameters\<close>

lemmas sample_simps = sampleEntry_def sampleEnv_def sampleRecord_def

lemmas str_simps = str_def codeOf_def

lemma str_append [simp]: "str a @ str b = str (a @ b)" "str a @ str b @ t = str (a @ b) @ t"
  by (simp_all add: str_def)

lemmas case_simps = toUpperCase_def toLowerCase_def isAscii_def upperAscii_def lowerAscii_def

lemmas number_simps = js_Number_def trim_def isWhiteSpace_def parseUnsignedDecimal_def
  isDigitOf_def digitValue_def parseExponent_def toBinary64_def scale10_def
  digitsValue_def Number_isFinite_def js_le_def numberToString_def digitsOf.simps str_simps

lemma normalizeLoop_acc:
  "normalizeLoop up repr j2s payload recs = recs @ List.map_filter (normalizeEntry up repr j2s) payload"
  by (induction payload arbitrary: recs) (auto split: option.splits)

lemma length_map_filter_le: "length (List.map_filter f xs) \<le> length xs"
  by (induction xs) (auto split: option.splits)

lemma Number_isFinite_iff: "Number_isFinite w \<longleftrightarrow> (\<exists>n. w = Fin n)"
  by (simp add: Number_isFinite_def split: jsnum.splits)

lemma toFiniteNumber_Some: "toFiniteNumber u = Some w \<Longrightarrow> \<exists>n. w = Fin n"
  by (cases u) (auto simp: Number_isFinite_def Let_def split: if_splits jsnum.splits)

lemma normalizeLoop_length: "length (normalizeLoop up repr j2s payload []) \<le> length payload"
  by (simp add: normalizeLoop_acc length_map_filter_le)

lemma blank_identifier:
  "toFiniteNumber (JString []) = Some (Fin 0)"
  "toFiniteNumber (JString (str '' '')) = Some (Fin 0)"
  "toCleanString (JString []) = None"
  "toCleanString (JString (str '' '')) = None"
  by (simp_all add: number_simps)

lemma NORAD_0: "str ''NORAD-'' @ numberToString repr (Fin 0) = str ''NORAD-0''"
  by (simp add: numberToString_def digitsOf.simps str_simps)

text \<open>
  C1. A raw record whose identifier is the empty string, or a string of white space, is
  not discarded. \<open>Number\<close> reads such a string as \<open>0\<close>, which is finite, so
  \<open>toFiniteNumber\<close> gives \<open>0\<close> although the identifier is neither a number nor a numeric
  string; \<open>toCleanString\<close> takes the same value for absent. Whenever \<open>json2satrec\<close>
  builds a \<open>SatRec\<close> from the record, the normalizer keeps the record under the
  identifier \<open>0\<close>, names it \<open>NORAD-0\<close> if it has no name, and \<open>loadOrbitSet\<close> returns it
  and stores it in the orbit cache.
\<close>

theorem normalizer_blank_identifier:
  assumes "NORAD_CAT_ID entry = JString [] \<or> NORAD_CAT_ID entry = JString (str '' '')"
    and "json2satrec env entry = Some sr"
    and "fetchWithTimeout env (buildGroupFeedUrl g) REQUEST_TIMEOUT_MS = Response 200 (JsonPayload [entry])"
    and "orbitCache st g = None"
  shows "toFiniteNumber (NORAD_CAT_ID entry) = Some (Fin 0)
         \<and> toCleanString (NORAD_CAT_ID entry) = None
         \<and> (\<exists>r. normalizeEntry (unicodeUpper env) (reprNumber env) (json2satrec env) entry = Some r
                \<and> noradId r = Fin 0 \<and> satrec r = sr
                \<and> (toCleanString (OBJECT_NAME entry) = None \<longrightarrow> objectName r = str ''NORAD-0'')
                \<and> normalizeLoop (unicodeUpper env) (reprNumber env) (json2satrec env) [entry] [] = [r]
                \<and> (\<exists>v st'. loadOrbitSet env g st = Inr (v, st') \<and> records v = [r]
                       \<and> orbitCache st' g = Some \<lparr>expiresAt = nowLoad env + ORBIT_CACHE_TTL_MS, cached = v\<rparr>))"
proof -
  have 1: "toFiniteNumber (NORAD_CAT_ID entry) = Some (Fin 0)"
    using assms(1) blank_identifier(1,2) by auto
  have 2: "toCleanString (NORAD_CAT_ID entry) = None"
    using assms(1) blank_identifier(3,4) by auto
  obtain r where r: "normalizeEntry (unicodeUpper env) (reprNumber env) (json2satrec env) entry = Some r"
    by (simp add: normalizeEntry_def 1 assms(2) Let_def)
  have 3: "noradId r = Fin 0 \<and> satrec r = sr"
    using r by (auto simp: normalizeEntry_def 1 assms(2) Let_def)
  have 4: "toCleanString (OBJECT_NAME entry) = None \<longrightarrow> objectName r = str ''NORAD-0''"
    using r by (auto simp: normalizeEntry_def 1 assms(2) Let_def NORAD_0)
  have 5: "normalizeLoop (unicodeUpper env) (reprNumber env) (json2satrec env) [entry] [] = [r]"
    by (simp add: r)
  have 6: "\<exists>v st'. loadOrbitSet env g st = Inr (v, st') \<and> records v = [r]
             \<and> orbitCache st' g = Some \<lparr>expiresAt = nowLoad env + ORBIT_CACHE_TTL_MS, cached = v\<rparr>"
    by (simp add: loadOrbitSet_def assms(3,4) response_ok_def Let_def r)
  from 3 show ?thesis by (intro conjI exI[of _ r] 1 2 r 4 5 6) simp_all
qed

theorem normalizer_blank_identifier_witness:
  "(case loadOrbitSet
           (sampleEnv 0 (Response 200 (JsonPayload [sampleEntry (JString []) JUndefined JUndefined 7])))
           (str ''stations'') emptyCaches of
      Inl e \<Rightarrow> False
    | Inr (v, st') \<Rightarrow>
        map noradId (records v) = [Fin 0] \<and> map objectName (records v) = [str ''NORAD-0'']
        \<and> map satrec (records v) = [7])"
  using normalizer_blank_identifier [of "sampleEntry (JString []) JUndefined JUndefined 7"
      "sampleEnv 0 (Response 200 (JsonPayload [sampleEntry (JString []) JUndefined JUndefined 7]))"
      7 "str ''stations''" emptyCaches]
  by (simp add: sample_simps emptyCaches_def) (elim exE conjE, simp)

text \<open>
  C2. A finite longitude between \<open>-540\<close> and \<open>540\<close> is normalized into \<open>[-180, 180]\<close> by
  at most one addition or subtraction of \<open>360\<close>; a longitude that is already in
  \<open>[-180, 180]\<close> is returned as it is, so normalizing twice is normalizing once.
\<close>

theorem normalizeLongitude_range:
  assumes "- 540 \<le> l" and "l \<le> 540"
  shows "\<exists>m. normalizeLongitude (Fin l) = Fin m \<and> - 180 \<le> m \<and> m \<le> 180
           \<and> (m = l \<or> m = l - 360 \<or> m = l + 360)
           \<and> (- 180 \<le> l \<and> l \<le> 180 \<longrightarrow> m = l)
           \<and> normalizeLongitude (Fin m) = Fin m"
  using assms
  by (auto simp: normalizeLongitude_def Number_isFinite_def js_gt_def js_sub_def)

theorem normalizeLongitude_range_witness:
  "- 540 \<le> (200::real) \<and> (200::real) \<le> 540
   \<and> normalizeLongitude (Fin 200) = Fin (- 160)
   \<and> normalizeLongitude (Fin (- 160)) = Fin (- 160)
   \<and> normalizeLongitude (Fin (- 540)) = Fin (- 180)"
  using normalizeLongitude_range [of 200]
  by (simp add: normalizeLongitude_def Number_isFinite_def js_gt_def js_sub_def)

text \<open>
  C4. The limit parameter \<open>0.5\<close> is numeric and positive, and \<open>parseLimit\<close> turns it into
  the limit \<open>0\<close>, which is neither \<open>null\<close> nor a positive integer; with it
  \<open>computePositions\<close> processes no record.
\<close>

theorem parseLimit_fraction:
  "parseLimit (Some (str ''0.5'')) = Some (Fin 0)
   \<and> computePositions env recs nowDate (parseLimit (Some (str ''0.5''))) = []"
proof -
  have a: "parseLimit (Some (str ''0.5'')) = Some (Fin 0)"
    by (simp add: parseLimit_def number_simps)
  have "computePositions env recs nowDate (Some (Fin 0)) = []"
    by (simp add: computePositions_def computeLoop.simps requestedCount_def Math_min_def)
  with a show ?thesis by simp
qed

theorem parseLimit_fraction_witness:
  "parseLimit (Some (str ''0.5'')) = Some (Fin 0)
   \<and> computePositions (sampleEnv 0 (FetchFails OtherThrown)) [sampleRecord 1 1, sampleRecord 2 2] 0
         (parseLimit (Some (str ''0.5''))) = []"
  by (rule parseLimit_fraction)

section \<open>Properties of the position computer\<close>

lemma computeLoop_prefix:
  assumes "requestedCount recs limit = Fin (real k)" and "k \<le> length recs"
  shows "index \<le> k \<Longrightarrow>
         computeLoop env gmst recs nowDate limit index sats =
           sats @ List.map_filter (positionOf env gmst nowDate) (drop index (take k recs))"
proof (induction "k - index" arbitrary: index sats)
  case 0
  then have "index = k" by simp
  then show ?case
    using assms by (simp add: computeLoop.simps [of _ _ _ _ _ k])
next
  case (Suc d)
  then have lt: "index < k" by simp
  have "index < length (take k recs)"
    using lt assms(2) by simp
  then have "drop index (take k recs) = take k recs ! index # drop (Suc index) (take k recs)"
    by (rule Cons_nth_drop_Suc [symmetric])
  moreover have "take k recs ! index = recs ! index"
    using lt by simp
  ultimately have dr: "drop index (take k recs) = recs ! index # drop (Suc index) (take k recs)"
    by simp
  have "computeLoop env gmst recs nowDate limit index sats =
        computeLoop env gmst recs nowDate limit (Suc index)
          (case positionOf env gmst nowDate (recs ! index) of None \<Rightarrow> sats | Some p \<Rightarrow> sats @ [p])"
    using lt assms(1) by (subst computeLoop.simps) simp
  also have "\<dots> = (case positionOf env gmst nowDate (recs ! index) of None \<Rightarrow> sats | Some p \<Rightarrow> sats @ [p])
        @ List.map_filter (positionOf env gmst nowDate) (drop (Suc index) (take k recs))"
    using Suc.hyps(1) [of "Suc index"] Suc.hyps(2) lt by simp
  finally show ?case
    by (simp add: dr split: option.splits)
qed

lemma requestedCount_nat:
  "requestedCount recs None = Fin (real (length recs))"
  "requestedCount recs (Some (Fin (real n))) = Fin (real (min n (length recs)))"
  by (auto simp: requestedCount_def Math_min_def)

lemma computePositions_None:
  "computePositions env recs nowDate None =
     List.map_filter (positionOf env (gstime env nowDate) nowDate) recs"
  using computeLoop_prefix [of recs None "length recs" 0 env "gstime env nowDate" nowDate "[]"]
  by (simp add: computePositions_def requestedCount_nat)

lemma computePositions_limit:
  "computePositions env recs nowDate (Some (Fin (real n))) =
     List.map_filter (positionOf env (gstime env nowDate) nowDate) (take n recs)"
proof -
  have "take (min n (length recs)) recs = take n recs"
    by (simp add: min_def)
  then show ?thesis
    using computeLoop_prefix [of recs "Some (Fin (real n))" "min n (length recs)" 0 env
        "gstime env nowDate" nowDate "[]"]
    by (simp add: computePositions_def requestedCount_nat)
qed

lemma positionOf_descriptive:
  "positionOf env gmst nowDate r = Some p \<Longrightarrow>
     noradId p = noradId r \<and> objectName p = objectName r \<and> objectType p = objectType r
     \<and> countryCode p = countryCode r \<and> inclination p = inclination r \<and> launchDate p = launchDate r"
  by (auto simp: positionOf_def Let_def split: option.splits if_splits)

lemma subseq_map_filter:
  "(\<And>a b. a \<in> set xs \<Longrightarrow> f a = Some b \<Longrightarrow> h b = k a) \<Longrightarrow>
     subseq (map h (List.map_filter f xs)) (map k xs)"
  by (induction xs) (auto split: option.splits)

lemma set_map_filter: "set (List.map_filter f xs) = {b. \<exists>a\<in>set xs. f a = Some b}"
  by (induction xs) (auto split: option.splits)

lemma parseLimit_natural:
  "parseLimit p = None \<or> (\<exists>n. parseLimit p = Some (Fin (real n)))"
proof (cases "parseLimit p")
  case None
  then show ?thesis by simp
next
  case (Some l)
  then obtain s r where s: "p = Some s" and r: "js_Number s = Fin r" and pos: "0 < r"
    and l: "l = Fin (of_int \<lfloor>r\<rfloor>)"
    by (auto simp: parseLimit_def Let_def Number_isFinite_def js_le_def
             split: option.splits if_splits jsnum.splits)
  have "0 \<le> \<lfloor>r\<rfloor>" using pos by simp
  then have "real_of_int \<lfloor>r\<rfloor> = real (nat \<lfloor>r\<rfloor>)" by simp
  with Some l show ?thesis by auto
qed

text \<open>
  C3. \<open>computePositions\<close> runs the loop body on the records of the collection in their
  order: on all of them without a limit, and on the first \<open>min n length\<close> with the
  limit \<open>n\<close>. The positions returned are those of the records of that prefix on which
  the body does not \<open>continue\<close>, in the order of the prefix, so there are at most
  \<open>min n length\<close> of them, their identifiers are a subsequence of the identifiers of
  the prefix, and each one is the position of a record of the prefix. The body skips a
  record exactly when propagation gives no state, no position or no velocity, or the
  latitude or the normalized longitude is not finite. The limit the handler passes is
  \<open>null\<close> or a natural number.
\<close>

theorem computePositions_prefix:
  "computePositions env recs nowDate None =
     List.map_filter (positionOf env (gstime env nowDate) nowDate) recs
   \<and> computePositions env recs nowDate (Some (Fin (real n))) =
     List.map_filter (positionOf env (gstime env nowDate) nowDate) (take (min n (length recs)) recs)
   \<and> length (computePositions env recs nowDate (Some (Fin (real n)))) \<le> min n (length recs)
   \<and> subseq (map noradId (computePositions env recs nowDate (Some (Fin (real n)))))
        (map noradId (take (min n (length recs)) recs))
   \<and> (\<forall>p \<in> set (computePositions env recs nowDate (Some (Fin (real n)))).
         \<exists>i < min n (length recs). positionOf env (gstime env nowDate) nowDate (recs ! i) = Some p)
   \<and> (positionOf env gmst nowDate r = None \<longleftrightarrow>
        (case propagate env (satrec r) nowDate of
           None \<Rightarrow> True
         | Some state \<Rightarrow>
             (case (position state, velocity state) of
                (Some pos, Some vel) \<Rightarrow>
                  \<not> Number_isFinite (radiansToDegrees env (latitude (eciToGeodetic env pos gmst)))
                  \<or> \<not> Number_isFinite (normalizeLongitude
                         (radiansToDegrees env (longitude (eciToGeodetic env pos gmst))))
              | _ \<Rightarrow> True)))
   \<and> (parseLimit param = None \<or> (\<exists>k. parseLimit param = Some (Fin (real k))))"
proof -
  let ?f = "positionOf env (gstime env nowDate) nowDate"
  let ?m = "min n (length recs)"
  have tk: "take ?m recs = take n recs" by (simp add: min_def)
  have 1: "computePositions env recs nowDate None = List.map_filter ?f recs"
    by (rule computePositions_None)
  have 2: "computePositions env recs nowDate (Some (Fin (real n))) = List.map_filter ?f (take ?m recs)"
    by (simp only: tk computePositions_limit)
  have 3: "length (computePositions env recs nowDate (Some (Fin (real n)))) \<le> ?m"
    using length_map_filter_le [of ?f "take ?m recs"] by (simp only: 2) simp
  have 4: "subseq (map noradId (computePositions env recs nowDate (Some (Fin (real n)))))
        (map noradId (take ?m recs))"
    unfolding 2 by (rule subseq_map_filter) (simp add: positionOf_descriptive)
  have 5: "\<forall>p \<in> set (computePositions env recs nowDate (Some (Fin (real n)))).
         \<exists>i < ?m. ?f (recs ! i) = Some p"
  proof
    fix p assume "p \<in> set (computePositions env recs nowDate (Some (Fin (real n))))"
    then obtain a where a: "a \<in> set (take ?m recs)" "?f a = Some p"
      unfolding 2 set_map_filter by blast
    then obtain i where "i < length (take ?m recs)" "take ?m recs ! i = a"
      by (auto simp: in_set_conv_nth)
    then have "i < ?m" "recs ! i = a" by auto
    with a show "\<exists>i < ?m. ?f (recs ! i) = Some p" by blast
  qed
  have 6: "positionOf env gmst nowDate r = None \<longleftrightarrow>
        (case propagate env (satrec r) nowDate of
           None \<Rightarrow> True
         | Some state \<Rightarrow>
             (case (position state, velocity state) of
                (Some pos, Some vel) \<Rightarrow>
                  \<not> Number_isFinite (radiansToDegrees env (latitude (eciToGeodetic env pos gmst)))
                  \<or> \<not> Number_isFinite (normalizeLongitude
                         (radiansToDegrees env (longitude (eciToGeodetic env pos gmst))))
              | _ \<Rightarrow> True))"
    by (auto simp: positionOf_def Let_def split: option.splits)
  have 7: "parseLimit param = None \<or> (\<exists>k. parseLimit param = Some (Fin (real k)))"
    by (rule parseLimit_natural)
  from 1 2 3 4 5 6 7 show ?thesis by blast
qed

theorem computePositions_prefix_witness:
  "map noradId (computePositions (sampleEnv 0 (FetchFails OtherThrown))
        [sampleRecord 1 200, sampleRecord 2 13, sampleRecord 3 30, sampleRecord 4 40] 5 (Some (Fin (real 3))))
     = [Fin 1, Fin 3]
   \<and> map lon (computePositions (sampleEnv 0 (FetchFails OtherThrown))
        [sampleRecord 1 200, sampleRecord 2 13, sampleRecord 3 30, sampleRecord 4 40] 5 (Some (Fin (real 3))))
     = [Fin (- 160), Fin 30]
   \<and> length (computePositions (sampleEnv 0 (FetchFails OtherThrown))
        [sampleRecord 1 200, sampleRecord 2 13, sampleRecord 3 30, sampleRecord 4 40] 5 None) = 3"
  using computePositions_prefix [of "sampleEnv 0 (FetchFails OtherThrown)"
        "[sampleRecord 1 200, sampleRecord 2 13, sampleRecord 3 30, sampleRecord 4 40]" 5 3]
  apply (simp only: )
  apply (simp add: sample_simps positionOf_def normalizeLongitude_def
      Number_isFinite_def js_gt_def js_sub_def Let_def)
  done

section \<open>Properties of the handler\<close>

lemma normalizeEntry_objectType:
  "normalizeEntry up repr j2s entry = Some r \<Longrightarrow> classified r"
  by (auto simp: classified_def normalizeEntry_def Let_def split: option.splits)

lemma normalizeLoop_objectType:
  "r \<in> set (normalizeLoop up repr j2s payload []) \<Longrightarrow> classified r"
  by (auto simp: normalizeLoop_acc set_map_filter dest: normalizeEntry_objectType)

lemma computeLoop_origin:
  "p \<in> set (computeLoop env gmst recs nowDate limit index sats) \<Longrightarrow>
     p \<in> set sats \<or> (\<exists>r \<in> set recs. positionOf env gmst nowDate r = Some p)"
proof (induction env gmst recs nowDate limit index sats rule: computeLoop.induct)
  case (1 env gmst recs nowDate limit index sats)
  show ?case
  proof (cases "js_lt (Fin (real index)) (requestedCount recs limit)")
    case True
    then have i: "index < length recs" by (rule requestedCount_bound)
    from True "1.prems" have
      "p \<in> set (computeLoop env gmst recs nowDate limit (index + 1)
             (case positionOf env gmst nowDate (recs ! index) of None \<Rightarrow> sats | Some q \<Rightarrow> sats @ [q]))"
      by (subst (asm) computeLoop.simps) simp
    from "1.IH" [OF True this] i show ?thesis
      by (auto split: option.splits)
  next
    case False
    with "1.prems" show ?thesis by (subst (asm) computeLoop.simps) simp
  qed
qed

lemma computePositions_objectType:
  assumes "\<forall>r \<in> set recs. classified r"
    and "p \<in> set (computePositions env recs nowDate limit)"
  shows "classified p"
proof -
  from assms(2) obtain r where "r \<in> set recs" "positionOf env (gstime env nowDate) nowDate r = Some p"
    unfolding computePositions_def by (auto dest: computeLoop_origin)
  with assms(1) show ?thesis
    by (auto simp: classified_def dest: positionOf_descriptive)
qed

lemma loadOrbitSet_cases:
  "loadOrbitSet env g st = Inr (v, st1) \<Longrightarrow>
     (\<exists>c. orbitCache st g = Some c \<and> nowLoad env < expiresAt c \<and> v = cached c \<and> st1 = st)
     \<or> ((\<forall>c. orbitCache st g = Some c \<longrightarrow> expiresAt c \<le> nowLoad env)
        \<and> (\<exists>code payload.
              fetchWithTimeout env (buildGroupFeedUrl g) REQUEST_TIMEOUT_MS = Response code (JsonPayload payload)
              \<and> response_ok code
              \<and> v = \<lparr>fetchedAt = nowFetched env, source = buildGroupFeedUrl g,
                      records = normalizeLoop (unicodeUpper env) (reprNumber env) (json2satrec env) payload []\<rparr>
              \<and> st1 = st\<lparr>orbitCache := (orbitCache st)
                          (g \<mapsto> \<lparr>expiresAt = nowLoad env + ORBIT_CACHE_TTL_MS, cached = v\<rparr>)\<rparr>))"
  by (auto simp: loadOrbitSet_def Let_def
           split: option.splits if_splits fetchResult.splits responseBody.splits)

lemma loadOrbitSet_inv:
  assumes "cachesInv st" and "loadOrbitSet env g st = Inr (v, st1)"
  shows "cachesInv st1 \<and> (\<forall>r \<in> set (records v). classified r)
         \<and> positionCache st1 = positionCache st"
  using loadOrbitSet_cases [OF assms(2)] assms(1)
  by (auto simp: cachesInv_def normalizeLoop_objectType split: if_splits)

lemma GET_cases:
  assumes "GET env st req = (resp, st')"
  defines "g \<equiv> requestGroup (unicodeLower env) req"
    and "limit \<equiv> parseLimit (limitParam req)"
  defines "key \<equiv> positionCacheKey (reprNumber env) g limit"
  shows "(\<exists>c. positionCache st key = Some c \<and> nowGET env < expiresAt c
              \<and> resp = \<lparr>status = 200, cacheControl = Some NO_STORE, body = SnapshotJson (cached c)\<rparr>
              \<and> st' = st)
         \<or> ((\<forall>c. positionCache st key = Some c \<longrightarrow> expiresAt c \<le> nowGET env)
            \<and> ((\<exists>e. loadOrbitSet env g st = Inl e \<and> resp = errorResponse e \<and> st' = st)
               \<or> (\<exists>orbitSet st1 v. loadOrbitSet env g st = Inr (orbitSet, st1)
                     \<and> v = \<lparr>fetchedAt = fetchedAt orbitSet,
                             source = source orbitSet,
                             computedAt = nowComputed env,
                             count = length (computePositions env (records orbitSet) (nowComputed env) limit),
                             group = g,
                             satellites = computePositions env (records orbitSet) (nowComputed env) limit,
                             totalOrbits = length (records orbitSet)\<rparr>
                     \<and> resp = \<lparr>status = 200, cacheControl = Some NO_STORE, body = SnapshotJson v\<rparr>
                     \<and> st' = st1\<lparr>positionCache := (positionCache st1)
                            (key \<mapsto> \<lparr>expiresAt = nowGET env + POSITION_CACHE_TTL_MS, cached = v\<rparr>)\<rparr>)))"
  using assms(1) unfolding g_def limit_def key_def
  by (auto simp: GET_def Let_def split: option.splits if_splits sum.splits prod.splits)

lemma GET_inv:
  assumes "cachesInv st" and "GET env st req = (resp, st')"
  shows "cachesInv st'"
proof -
  from GET_cases [OF assms(2)] show ?thesis
  proof (elim disjE exE conjE)
    fix c assume "st' = st" with assms(1) show ?thesis by simp
  next
    fix e assume "st' = st" with assms(1) show ?thesis by simp
  next
    fix orbitSet st1 v
    assume l: "loadOrbitSet env (requestGroup (unicodeLower env) req) st = Inr (orbitSet, st1)"
      and v: "v = \<lparr>fetchedAt = fetchedAt orbitSet,
                             source = source orbitSet,
                             computedAt = nowComputed env,
                             count = length (computePositions env (records orbitSet) (nowComputed env) (parseLimit (limitParam req))),
                             group = requestGroup (unicodeLower env) req,
                             satellites = computePositions env (records orbitSet) (nowComputed env) (parseLimit (limitParam req)),
                             totalOrbits = length (records orbitSet)\<rparr>"
      and s: "st' = st1\<lparr>positionCache := (positionCache st1)
                            (positionCacheKey (reprNumber env) (requestGroup (unicodeLower env) req) (parseLimit (limitParam req))
                               \<mapsto> \<lparr>expiresAt = nowGET env + POSITION_CACHE_TTL_MS, cached = v\<rparr>)\<rparr>"
    from loadOrbitSet_inv [OF assms(1) l]
    have i1: "cachesInv st1" and rs: "\<forall>r \<in> set (records orbitSet). classified r"
      by simp_all
    have "\<forall>p \<in> set (satellites v). classified p"
      using rs by (auto simp: v dest: computePositions_objectType)
    moreover have "count v = length (satellites v)" by (simp add: v)
    ultimately show ?thesis
      using i1 unfolding s cachesInv_def by auto
  qed
qed

lemma cachesInv_empty: "cachesInv emptyCaches"
  by (simp add: cachesInv_def emptyCaches_def)

lemma serve_inv: "cachesInv st \<Longrightarrow> cachesInv (serve history st)"
proof (induction history arbitrary: st)
  case Nil
  then show ?case by simp
next
  case (Cons a history)
  obtain env req where a: "a = (env, req)" by (cases a)
  obtain resp st' where g: "GET env st req = (resp, st')" by (cases "GET env st req")
  from GET_inv [OF Cons.prems g] have "cachesInv st'" .
  from Cons.IH [OF this] show ?case by (simp add: a g)
qed

lemma sample_key:
  "requestGroup lo sampleRequest = str ''stations''"
  "parseLimit (limitParam sampleRequest) = Some (Fin 5)"
  "positionCacheKey (\<lambda>r. str ''?'') (str ''stations'') (Some (Fin 5)) = str ''stations:5''"
  by (simp_all add: sampleRequest_def requestGroup_def case_simps
      ALLOWED_GROUPS_def DEFAULT_GROUP_def parseLimit_def positionCacheKey_def number_simps)

lemma sample_normalize:
  "normalizeLoop up (\<lambda>r. str ''?'') (json2satrec (sampleEnv t fr)) samplePayload [] = sampleRecords"
  by (simp add: samplePayload_def sample_simps sampleRecords_def normalizeEntry_def
      normalizeObjectType_def inferObjectTypeFromName_def case_simps
      number_simps Let_def)

lemma sampleEnv_sel:
  "nowGET (sampleEnv t fr) = t"
  "nowLoad (sampleEnv t fr) = t + 1"
  "nowFetched (sampleEnv t fr) = t + 2"
  "nowComputed (sampleEnv t fr) = t + 3"
  "fetchWithTimeout (sampleEnv t fr) u d = fr"
  "reprNumber (sampleEnv t fr) = (\<lambda>r. str ''?'')"
  by (simp_all add: sampleEnv_def)

lemma sampleOrbitSet_sel:
  "records sampleOrbitSet = sampleRecords"
  "fetchedAt sampleOrbitSet = 1002"
  "source sampleOrbitSet = str ''https://celestrak.org/NORAD/elements/gp.php?GROUP=stations&FORMAT=json''"
  "length sampleRecords = 2"
  by (simp_all add: sampleOrbitSet_def sampleRecords_def)

lemma sample_load:
  "loadOrbitSet (sampleEnv 1000 (Response 200 (JsonPayload samplePayload))) (str ''stations'') emptyCaches
     = Inr (sampleOrbitSet,
            \<lparr>orbitCache = [str ''stations'' \<mapsto> \<lparr>expiresAt = 1801001, cached = sampleOrbitSet\<rparr>],
             positionCache = Map.empty\<rparr>)"
  by (simp add: loadOrbitSet_def emptyCaches_def sampleEnv_sel sample_normalize response_ok_def
        sampleOrbitSet_def buildGroupFeedUrl_def ORBIT_CACHE_TTL_MS_def Let_def)

lemma sample_compute:
  "computePositions (sampleEnv t fr) sampleRecords nowDate (Some (Fin 5)) = satellites (sampleSnapshot u)"
proof -
  have "computePositions (sampleEnv t fr) sampleRecords nowDate (Some (Fin (real 5)))
        = List.map_filter (positionOf (sampleEnv t fr) (gstime (sampleEnv t fr) nowDate) nowDate)
            (take 5 sampleRecords)"
    by (rule computePositions_limit)
  then show ?thesis
    by (simp add: sampleRecords_def sampleSnapshot_def sampleEnv_def positionOf_def
        normalizeLongitude_def Number_isFinite_def js_gt_def js_sub_def Let_def)
qed

lemma sample_first_GET:
  "GET (sampleEnv 1000 (Response 200 (JsonPayload samplePayload))) emptyCaches sampleRequest
     = (\<lparr>status = 200, cacheControl = Some NO_STORE, body = SnapshotJson (sampleSnapshot 1003)\<rparr>,
        sampleCaches)"
proof -
  have e: "positionCache (emptyCaches :: nat caches) (str ''stations:5'') = None"
    by (simp add: emptyCaches_def)
  have l: "length (satellites (sampleSnapshot 1003)) = 2"
    by (simp add: sampleSnapshot_def)
  show ?thesis
    by (simp add: GET_def sample_key sampleEnv_sel e sample_load sampleOrbitSet_sel
        sample_compute [where u = 1003] l Let_def POSITION_CACHE_TTL_MS_def sampleCaches_def)
       (simp add: sampleSnapshot_def)
qed

lemma errorResponse_shape:
  "status (errorResponse e) = 502
   \<and> (\<exists>m. body (errorResponse e) = ErrorJson (str ''Unable to fetch live satellite positions: '' @ m))"
  by (simp add: errorResponse_def Let_def)

lemma serve_emptyCaches_inv: "cachesInv (serve history emptyCaches)"
  by (rule serve_inv [OF cachesInv_empty])













lemma loadOrbitSet_failures:
  assumes "\<forall>c. orbitCache st g = Some c \<longrightarrow> expiresAt c \<le> nowLoad env"
  shows "(fetchWithTimeout env (buildGroupFeedUrl g) REQUEST_TIMEOUT_MS = FetchFails e
            \<longrightarrow> loadOrbitSet env g st = Inl e)
       \<and> (fetchWithTimeout env (buildGroupFeedUrl g) REQUEST_TIMEOUT_MS = Response code b \<and> \<not> response_ok code
            \<longrightarrow> loadOrbitSet env g st =
                  Inl (ErrorObject (str ''CelesTrak orbit request failed ('' @
                         numberToString (reprNumber env) (Fin (real code)) @ str '')'')))
       \<and> (fetchWithTimeout env (buildGroupFeedUrl g) REQUEST_TIMEOUT_MS = Response code (JsonFails e)
            \<and> response_ok code \<longrightarrow> loadOrbitSet env g st = Inl e)"
  using assms by (auto simp: loadOrbitSet_def Let_def split: option.splits)

lemma GET_miss_error:
  assumes "\<forall>c. positionCache st (positionCacheKey (reprNumber env) (requestGroup (unicodeLower env) req)
                (parseLimit (limitParam req))) = Some c \<longrightarrow> expiresAt c \<le> nowGET env"
    and "loadOrbitSet env (requestGroup (unicodeLower env) req) st = Inl e"
  shows "GET env st req = (errorResponse e, st)"
  using assms by (auto simp: GET_def Let_def split: option.splits)

text \<open>
  C6. On a server that started with empty caches, a response is either a snapshot with
  status \<open>200\<close> whose count is the number of its positions, or the error envelope with
  status \<open>502\<close> and a message behind a fixed prefix, the caches unchanged. When
  neither cache has a live entry, a fetch that rejects (the abort of the timeout
  included), a response that is not ok and a body that does not parse each end in the
  error envelope, with the cause as its message.
\<close>

theorem GET_error_envelope:
  fixes env :: "('e, 's) env" and history :: "(('e, 's) env \<times> request) list"
  assumes "st = serve history emptyCaches" and "GET env st req = (resp, st')"
  shows "((status resp = 200 \<and> (\<exists>v. body resp = SnapshotJson v \<and> count v = length (satellites v)))
          \<or> (status resp = 502 \<and> st' = st
              \<and> (\<exists>m. body resp = ErrorJson (str ''Unable to fetch live satellite positions: '' @ m))))
   \<and> ((\<forall>c. positionCache st (positionCacheKey (reprNumber env) (requestGroup (unicodeLower env) req)
                (parseLimit (limitParam req))) = Some c \<longrightarrow> expiresAt c \<le> nowGET env)
       \<and> (\<forall>c. orbitCache st (requestGroup (unicodeLower env) req) = Some c \<longrightarrow> expiresAt c \<le> nowLoad env) \<longrightarrow>
        (\<forall>e. fetchWithTimeout env (buildGroupFeedUrl (requestGroup (unicodeLower env) req)) REQUEST_TIMEOUT_MS = FetchFails e
               \<longrightarrow> resp = errorResponse e \<and> st' = st)
        \<and> (\<forall>code b. fetchWithTimeout env (buildGroupFeedUrl (requestGroup (unicodeLower env) req)) REQUEST_TIMEOUT_MS
                       = Response code b \<and> \<not> response_ok code
               \<longrightarrow> resp = errorResponse (ErrorObject (str ''CelesTrak orbit request failed ('' @
                             numberToString (reprNumber env) (Fin (real code)) @ str '')''))
                   \<and> st' = st)
        \<and> (\<forall>code e. fetchWithTimeout env (buildGroupFeedUrl (requestGroup (unicodeLower env) req)) REQUEST_TIMEOUT_MS
                       = Response code (JsonFails e) \<and> response_ok code
               \<longrightarrow> resp = errorResponse e \<and> st' = st))
   \<and> status (errorResponse e0) = 502
   \<and> body (errorResponse (ErrorObject msg)) = ErrorJson (str ''Unable to fetch live satellite positions: '' @ msg)"
proof -
  have inv: "cachesInv st"
    unfolding assms(1) by (rule serve_emptyCaches_inv)
  have 1: "(status resp = 200 \<and> (\<exists>v. body resp = SnapshotJson v \<and> count v = length (satellites v)))
          \<or> (status resp = 502 \<and> st' = st
              \<and> (\<exists>m. body resp = ErrorJson (str ''Unable to fetch live satellite positions: '' @ m)))"
    using GET_cases [OF assms(2)]
  proof (elim disjE exE conjE)
    fix c
    assume "positionCache st (positionCacheKey (reprNumber env) (requestGroup (unicodeLower env) req)
                (parseLimit (limitParam req))) = Some c"
      and "resp = \<lparr>status = 200, cacheControl = Some NO_STORE, body = SnapshotJson (cached c)\<rparr>"
    with inv show ?thesis
      by (auto simp: cachesInv_def)
  next
    fix e assume "resp = errorResponse e" "st' = st"
    then show ?thesis
      using errorResponse_shape [of e] by simp
  next
    fix orbitSet st1 v
    assume "v = \<lparr>fetchedAt = fetchedAt orbitSet,
                             source = source orbitSet,
                             computedAt = nowComputed env,
                             count = length (computePositions env (records orbitSet) (nowComputed env) (parseLimit (limitParam req))),
                             group = requestGroup (unicodeLower env) req,
                             satellites = computePositions env (records orbitSet) (nowComputed env) (parseLimit (limitParam req)),
                             totalOrbits = length (records orbitSet)\<rparr>"
      and "resp = \<lparr>status = 200, cacheControl = Some NO_STORE, body = SnapshotJson v\<rparr>"
    then show ?thesis by simp
  qed
  have 2: "(\<forall>c. positionCache st (positionCacheKey (reprNumber env) (requestGroup (unicodeLower env) req)
                (parseLimit (limitParam req))) = Some c \<longrightarrow> expiresAt c \<le> nowGET env)
       \<and> (\<forall>c. orbitCache st (requestGroup (unicodeLower env) req) = Some c \<longrightarrow> expiresAt c \<le> nowLoad env) \<longrightarrow>
        (\<forall>e. fetchWithTimeout env (buildGroupFeedUrl (requestGroup (unicodeLower env) req)) REQUEST_TIMEOUT_MS = FetchFails e
               \<longrightarrow> resp = errorResponse e \<and> st' = st)
        \<and> (\<forall>code b. fetchWithTimeout env (buildGroupFeedUrl (requestGroup (unicodeLower env) req)) REQUEST_TIMEOUT_MS
                       = Response code b \<and> \<not> response_ok code
               \<longrightarrow> resp = errorResponse (ErrorObject (str ''CelesTrak orbit request failed ('' @
                             numberToString (reprNumber env) (Fin (real code)) @ str '')''))
                   \<and> st' = st)
        \<and> (\<forall>code e. fetchWithTimeout env (buildGroupFeedUrl (requestGroup (unicodeLower env) req)) REQUEST_TIMEOUT_MS
                       = Response code (JsonFails e) \<and> response_ok code
               \<longrightarrow> resp = errorResponse e \<and> st' = st)"
  proof (intro impI)
    assume m: "(\<forall>c. positionCache st (positionCacheKey (reprNumber env) (requestGroup (unicodeLower env) req)
                (parseLimit (limitParam req))) = Some c \<longrightarrow> expiresAt c \<le> nowGET env)
       \<and> (\<forall>c. orbitCache st (requestGroup (unicodeLower env) req) = Some c \<longrightarrow> expiresAt c \<le> nowLoad env)"
    then have pm: "\<forall>c. positionCache st (positionCacheKey (reprNumber env) (requestGroup (unicodeLower env) req)
                (parseLimit (limitParam req))) = Some c \<longrightarrow> expiresAt c \<le> nowGET env"
      and om: "\<forall>c. orbitCache st (requestGroup (unicodeLower env) req) = Some c \<longrightarrow> expiresAt c \<le> nowLoad env"
      by blast+
    have err: "\<And>e. loadOrbitSet env (requestGroup (unicodeLower env) req) st = Inl e \<Longrightarrow> resp = errorResponse e \<and> st' = st"
      using GET_miss_error [OF pm] assms(2) by simp
    show "(\<forall>e. fetchWithTimeout env (buildGroupFeedUrl (requestGroup (unicodeLower env) req)) REQUEST_TIMEOUT_MS = FetchFails e
               \<longrightarrow> resp = errorResponse e \<and> st' = st)
        \<and> (\<forall>code b. fetchWithTimeout env (buildGroupFeedUrl (requestGroup (unicodeLower env) req)) REQUEST_TIMEOUT_MS
                       = Response code b \<and> \<not> response_ok code
               \<longrightarrow> resp = errorResponse (ErrorObject (str ''CelesTrak orbit request failed ('' @
                             numberToString (reprNumber env) (Fin (real code)) @ str '')''))
                   \<and> st' = st)
        \<and> (\<forall>code e. fetchWithTimeout env (buildGroupFeedUrl (requestGroup (unicodeLower env) req)) REQUEST_TIMEOUT_MS
                       = Response code (JsonFails e) \<and> response_ok code
               \<longrightarrow> resp = errorResponse e \<and> st' = st)"
    proof (intro conjI allI impI)
      fix e
      assume "fetchWithTimeout env (buildGroupFeedUrl (requestGroup (unicodeLower env) req)) REQUEST_TIMEOUT_MS = FetchFails e"
      with loadOrbitSet_failures [OF om, of e] have "loadOrbitSet env (requestGroup (unicodeLower env) req) st = Inl e"
        by simp
      then show "resp = errorResponse e" "st' = st" using err by simp_all
    next
      fix code b
      assume "fetchWithTimeout env (buildGroupFeedUrl (requestGroup (unicodeLower env) req)) REQUEST_TIMEOUT_MS
                       = Response code b \<and> \<not> response_ok code"
      with loadOrbitSet_failures [OF om, of _ code b]
      have "loadOrbitSet env (requestGroup (unicodeLower env) req) st =
              Inl (ErrorObject (str ''CelesTrak orbit request failed ('' @
                         numberToString (reprNumber env) (Fin (real code)) @ str '')''))"
        by simp
      then show "resp = errorResponse (ErrorObject (str ''CelesTrak orbit request failed ('' @
                             numberToString (reprNumber env) (Fin (real code)) @ str '')''))" "st' = st"
        using err by simp_all
    next
      fix code e
      assume "fetchWithTimeout env (buildGroupFeedUrl (requestGroup (unicodeLower env) req)) REQUEST_TIMEOUT_MS
                       = Response code (JsonFails e) \<and> response_ok code"
      with loadOrbitSet_failures [OF om, of e code "JsonFails e"]
      have "loadOrbitSet env (requestGroup (unicodeLower env) req) st = Inl e"
        by simp
      then show "resp = errorResponse e" "st' = st" using err by simp_all
    qed
  qed
  have 3: "status (errorResponse e0) = 502"
    by (simp add: errorResponse_def Let_def)
  have 4: "body (errorResponse (ErrorObject msg)) = ErrorJson (str ''Unable to fetch live satellite positions: '' @ msg)"
    by (simp add: errorResponse_def)
  from 1 2 3 4 show ?thesis by (intro conjI)
qed

theorem GET_error_envelope_witness:
  "GET (sampleEnv 1000 (FetchFails (ErrorObject (str ''This operation was aborted''))))
       (serve [] emptyCaches) sampleRequest
     = (\<lparr>status = 502, cacheControl = None,
         body = ErrorJson (str ''Unable to fetch live satellite positions: This operation was aborted'')\<rparr>,
        emptyCaches)
   \<and> GET (sampleEnv 1000 (Response 503 (JsonPayload samplePayload)))
       (serve [] emptyCaches) sampleRequest
     = (\<lparr>status = 502, cacheControl = None,
         body = ErrorJson (str ''Unable to fetch live satellite positions: CelesTrak orbit request failed (503)'')\<rparr>,
        emptyCaches)
   \<and> count (sampleSnapshot 1003) = length (satellites (sampleSnapshot 1003))"
proof (intro conjI)
  let ?e1 = "sampleEnv 1000 (FetchFails (ErrorObject (str ''This operation was aborted''))) :: (nat, nat) env"
  let ?e2 = "sampleEnv 1000 (Response 503 (JsonPayload samplePayload)) :: (nat, nat) env"
  let ?e3 = "sampleEnv 1000 (Response 200 (JsonPayload samplePayload)) :: (nat, nat) env"
  have s0: "serve [] emptyCaches = (emptyCaches :: nat caches)" by simp
  have miss: "positionCache (emptyCaches :: nat caches) k = None" "orbitCache (emptyCaches :: nat caches) g = None"
    for k g by (simp_all add: emptyCaches_def)
  obtain r1 t1 where g1: "GET ?e1 emptyCaches sampleRequest = (r1, t1)"
    by (cases "GET ?e1 emptyCaches sampleRequest")
  from GET_error_envelope [of emptyCaches "[]" ?e1 sampleRequest r1 t1] g1
  have "r1 = errorResponse (ErrorObject (str ''This operation was aborted'')) \<and> t1 = emptyCaches"
    by (simp add: miss sampleEnv_sel)
  with g1 show "GET ?e1 (serve [] emptyCaches) sampleRequest
     = (\<lparr>status = 502, cacheControl = None,
         body = ErrorJson (str ''Unable to fetch live satellite positions: This operation was aborted'')\<rparr>,
        emptyCaches)"
    by (simp add: errorResponse_def)
  obtain r2 t2 where g2: "GET ?e2 emptyCaches sampleRequest = (r2, t2)"
    by (cases "GET ?e2 emptyCaches sampleRequest")
  from GET_error_envelope [of emptyCaches "[]" ?e2 sampleRequest r2 t2] g2
  have "r2 = errorResponse (ErrorObject (str ''CelesTrak orbit request failed ('' @
                             numberToString (\<lambda>r. str ''?'') (Fin (real 503)) @ str '')'')) \<and> t2 = emptyCaches"
    by (simp add: miss sampleEnv_sel response_ok_def)
  with g2 show "GET ?e2 (serve [] emptyCaches) sampleRequest
     = (\<lparr>status = 502, cacheControl = None,
         body = ErrorJson (str ''Unable to fetch live satellite positions: CelesTrak orbit request failed (503)'')\<rparr>,
        emptyCaches)"
    by (simp add: errorResponse_def number_simps)
  from GET_error_envelope [OF s0 [symmetric] sample_first_GET]
  have "\<exists>v. SnapshotJson (sampleSnapshot 1003) = SnapshotJson v \<and> count v = length (satellites v)"
    by simp
  then show "count (sampleSnapshot 1003) = length (satellites (sampleSnapshot 1003))"
    by simp
qed

text \<open>
  C10. Every record in the element-set cache has a classification, and so has every
  position of a successful response: the normalizer stores the normalized tag or, when
  there is none, the classification inferred from the name, which is one of
  \<open>PAYLOAD\<close>, \<open>DEBRIS\<close> and \<open>ROCKET BODY\<close>; positions copy the classification of their
  record.
\<close>

theorem objectType_never_null:
  fixes env :: "('e, 's) env" and history :: "(('e, 's) env \<times> request) list"
  assumes "st = serve history emptyCaches"
  shows "(\<forall>g c. orbitCache st g = Some c \<longrightarrow> (\<forall>r \<in> set (records (cached c)). objectType r \<noteq> None))
   \<and> (\<forall>resp st' v. GET env st req = (resp, st') \<and> body resp = SnapshotJson v \<longrightarrow>
          (\<forall>p \<in> set (satellites v). objectType p \<noteq> None))
   \<and> (\<forall>r. normalizeEntry up repr j2s entry = Some r \<longrightarrow>
          objectType r \<noteq> None
          \<and> (normalizeObjectType up (toCleanString (OBJECT_TYPE entry)) = None \<longrightarrow>
               objectType r = Some (inferObjectTypeFromName up (objectName r))))
   \<and> inferObjectTypeFromName up n \<in> {str ''PAYLOAD'', str ''DEBRIS'', str ''ROCKET BODY''}"
proof (intro conjI allI impI ballI)
  have inv: "cachesInv st"
    unfolding assms(1) by (rule serve_emptyCaches_inv)
  {
    fix g c r
    assume "orbitCache st g = Some c" "r \<in> set (records (cached c))"
    with inv show "objectType r \<noteq> None"
      unfolding cachesInv_def classified_def by blast
  }
  {
    fix resp st' v p
    assume h: "GET env st req = (resp, st') \<and> body resp = SnapshotJson v" and p: "p \<in> set (satellites v)"
    then have g: "GET env st req = (resp, st')" and b: "body resp = SnapshotJson v" by simp_all
    from GET_cases [OF g] have "classified p"
    proof (elim disjE exE conjE)
      fix c
      assume "positionCache st (positionCacheKey (reprNumber env) (requestGroup (unicodeLower env) req)
                (parseLimit (limitParam req))) = Some c"
        and "resp = \<lparr>status = 200, cacheControl = Some NO_STORE, body = SnapshotJson (cached c)\<rparr>"
      with inv b p show ?thesis
        by (auto simp: cachesInv_def)
    next
      fix e assume "resp = errorResponse e"
      with b show ?thesis by (simp add: errorResponse_def Let_def)
    next
      fix orbitSet st1 w
      assume l: "loadOrbitSet env (requestGroup (unicodeLower env) req) st = Inr (orbitSet, st1)"
        and w: "w = \<lparr>fetchedAt = fetchedAt orbitSet,
                             source = source orbitSet,
                             computedAt = nowComputed env,
                             count = length (computePositions env (records orbitSet) (nowComputed env) (parseLimit (limitParam req))),
                             group = requestGroup (unicodeLower env) req,
                             satellites = computePositions env (records orbitSet) (nowComputed env) (parseLimit (limitParam req)),
                             totalOrbits = length (records orbitSet)\<rparr>"
        and r: "resp = \<lparr>status = 200, cacheControl = Some NO_STORE, body = SnapshotJson w\<rparr>"
      from loadOrbitSet_inv [OF inv l] have rs: "\<forall>r \<in> set (records orbitSet). classified r"
        by simp
      from r b have "v = w" by simp
      with p w have "p \<in> set (computePositions env (records orbitSet) (nowComputed env)
                                 (parseLimit (limitParam req)))"
        by simp
      with rs show ?thesis by (rule computePositions_objectType)
    qed
    then show "objectType p \<noteq> None"
      by (simp add: classified_def)
  }
  {
    fix r
    assume r: "normalizeEntry up repr j2s entry = Some r"
    then show "objectType r \<noteq> None"
      using normalizeEntry_objectType [of up repr j2s entry r] by (simp add: classified_def)
    assume "normalizeObjectType up (toCleanString (OBJECT_TYPE entry)) = None"
    with r show "objectType r = Some (inferObjectTypeFromName up (objectName r))"
      by (auto simp: normalizeEntry_def Let_def split: option.splits)
  }
  show "inferObjectTypeFromName up n \<in> {str ''PAYLOAD'', str ''DEBRIS'', str ''ROCKET BODY''}"
    by (simp add: inferObjectTypeFromName_def Let_def)
qed

theorem objectType_never_null_witness:
  "map objectType (records (cached (the (orbitCache (serve
       [(sampleEnv 1000 (Response 200 (JsonPayload samplePayload)), sampleRequest)] emptyCaches)
       (str ''stations''))))) = [Some (str ''PAYLOAD''), Some (str ''ROCKET BODY'')]
   \<and> map objectType (satellites (sampleSnapshot 1003)) = [Some (str ''PAYLOAD''), Some (str ''ROCKET BODY'')]
   \<and> inferObjectTypeFromName (unicodeUpper (sampleEnv 5000 (FetchFails OtherThrown))) (str ''CZ-4B R/B'') = str ''ROCKET BODY''"
proof -
  let ?e = "sampleEnv 1000 (Response 200 (JsonPayload samplePayload)) :: (nat, nat) env"
  have s: "serve [(?e, sampleRequest)] emptyCaches = sampleCaches"
    by (simp add: sample_first_GET)
  note t = objectType_never_null [of sampleCaches "[(?e, sampleRequest)]"
      "sampleEnv 5000 (FetchFails OtherThrown)" sampleRequest
      "unicodeUpper (sampleEnv 5000 (FetchFails OtherThrown))" "\<lambda>r. str ''?''" "\<lambda>e. None"
      "sampleEntry JNull JNull JNull 0" "(str ''CZ-4B R/B'')", OF s [symmetric]]
  have a: "map objectType (records (cached (the (orbitCache sampleCaches (str ''stations'')))))
      = [Some (str ''PAYLOAD''), Some (str ''ROCKET BODY'')]"
    by (simp add: sampleCaches_def sampleOrbitSet_def sampleRecords_def)
  have b: "map objectType (satellites (sampleSnapshot 1003)) = [Some (str ''PAYLOAD''), Some (str ''ROCKET BODY'')]"
    by (simp add: sampleSnapshot_def)
  have c: "inferObjectTypeFromName (unicodeUpper (sampleEnv 5000 (FetchFails OtherThrown))) (str ''CZ-4B R/B'') = str ''ROCKET BODY''"
    using t by (simp add: inferObjectTypeFromName_def case_simps str_simps Let_def)
  from a b c show ?thesis by (simp only: s)
qed

section \<open>Properties of the classification\<close>

lemma trim_ends:
  assumes "trim s \<noteq> []"
  shows "\<not> isWhiteSpace (hd (trim s))" and "\<not> isWhiteSpace (last (trim s))"
proof -
  define u where "u = dropWhile isWhiteSpace s"
  define w where "w = dropWhile isWhiteSpace (rev u)"
  have t: "trim s = rev w"
    by (simp only: trim_def u_def w_def)
  with assms have w: "w \<noteq> []"
    by (metis rev_is_Nil_conv)
  then have u: "u \<noteq> []"
    unfolding w_def by (metis dropWhile.simps(1) rev_is_Nil_conv)
  have hw: "\<not> isWhiteSpace (hd w)"
    using w unfolding w_def by (rule hd_dropWhile)
  have hu: "\<not> isWhiteSpace (hd u)"
    using u unfolding u_def by (rule hd_dropWhile)
  have "last (trim s) = hd w"
    unfolding t using w by (simp add: last_rev)
  with hw show "\<not> isWhiteSpace (last (trim s))" by simp
  have "hd (trim s) = last w"
    unfolding t using w by (simp add: hd_rev)
  also have "\<dots> = last (rev u)"
  proof -
    have "rev u = takeWhile isWhiteSpace (rev u) @ w"
      unfolding w_def by (rule takeWhile_dropWhile_id [symmetric])
    then show ?thesis using w by (metis last_appendR)
  qed
  also have "\<dots> = hd u"
    using u by (simp add: last_rev)
  finally show "\<not> isWhiteSpace (hd (trim s))"
    using hu by simp
qed

lemma dropWhile_hd_id: "xs \<noteq> [] \<Longrightarrow> \<not> P (hd xs) \<Longrightarrow> dropWhile P xs = xs"
  by (cases xs) auto

lemma trim_Nil: "trim [] = []"
  by (simp add: trim_def)

lemma trim_idem: "trim (trim s) = trim s"
proof (cases "trim s = []")
  case True
  then show ?thesis by (simp only: trim_Nil)
next
  case False
  define t where "t = trim s"
  have ne: "t \<noteq> []" using False by (simp only: t_def not_False_eq_True)
  have 1: "dropWhile isWhiteSpace t = t"
    using ne trim_ends(1) [OF False] unfolding t_def by (rule dropWhile_hd_id)
  have "rev t \<noteq> []" using ne by (metis rev_is_Nil_conv)
  moreover have "hd (rev t) = last t" using ne by (simp add: hd_rev)
  then have "\<not> isWhiteSpace (hd (rev t))"
    using trim_ends(2) [OF False] by (simp add: t_def)
  ultimately have 2: "dropWhile isWhiteSpace (rev t) = rev t"
    by (rule dropWhile_hd_id)
  have "trim t = rev (dropWhile isWhiteSpace (rev (dropWhile isWhiteSpace t)))"
    by (simp only: trim_def)
  also have "\<dots> = t" by (simp only: 1 2 rev_rev_ident)
  finally show ?thesis by (simp only: t_def)
qed

lemma toCleanString_iff:
  "toCleanString v = Some t \<longleftrightarrow> (\<exists>s. v = JString s \<and> trim s \<noteq> [] \<and> t = trim s)"
  by (cases v) (auto simp: Let_def)

lemma toCleanString_None_iff:
  "toCleanString v = None \<longleftrightarrow> (\<forall>s. v = JString s \<longrightarrow> trim s = [])"
  by (cases v) (auto simp: Let_def)

lemma ascii_case:
  "upperAscii (lowerAscii c) = upperAscii c"
  "upperAscii (upperAscii c) = upperAscii c"
  "isAscii (lowerAscii c) = isAscii c"
  "isAscii (upperAscii c) = isAscii c"
  by (auto simp: upperAscii_def lowerAscii_def isAscii_def)

lemma isWhiteSpace_ascii_case:
  "isWhiteSpace (lowerAscii c) = isWhiteSpace c"
  "isWhiteSpace (upperAscii c) = isWhiteSpace c"
  by (auto simp: upperAscii_def lowerAscii_def isWhiteSpace_def)

lemma trim_map:
  assumes "\<And>c. isWhiteSpace (f c) = isWhiteSpace c"
  shows "trim (map f s) = map f (trim s)"
proof -
  have dw: "dropWhile isWhiteSpace (map f xs) = map f (dropWhile isWhiteSpace xs)" for xs
    by (induction xs) (simp_all add: assms)
  show ?thesis
    by (simp add: trim_def dw rev_map)
qed

lemma set_trim: "set (trim s) \<subseteq> set s"
proof -
  have "set (trim s) = set (dropWhile isWhiteSpace (rev (dropWhile isWhiteSpace s)))"
    by (simp only: trim_def set_rev)
  also have "\<dots> \<subseteq> set (rev (dropWhile isWhiteSpace s))"
    by (auto dest: set_dropWhileD)
  also have "\<dots> \<subseteq> set s"
    by (auto dest: set_dropWhileD)
  finally show ?thesis .
qed

lemma trim_ascii: "list_all isAscii s \<Longrightarrow> list_all isAscii (trim s)"
  using set_trim [of s] by (auto simp: list_all_iff)

lemma toUpperCase_ascii:
  assumes "list_all isAscii s"
  shows "toUpperCase up (trim (map lowerAscii s)) = toUpperCase up (trim s)"
    and "toUpperCase up (trim (map upperAscii s)) = toUpperCase up (trim s)"
    and "trim (map lowerAscii s) = [] \<longleftrightarrow> trim s = []"
    and "trim (map upperAscii s) = [] \<longleftrightarrow> trim s = []"
proof -
  have a: "list_all isAscii (trim s)"
    using assms by (rule trim_ascii)
  then have b: "list_all isAscii (map lowerAscii (trim s))" "list_all isAscii (map upperAscii (trim s))"
    by (simp_all add: list_all_iff ascii_case)
  show "toUpperCase up (trim (map lowerAscii s)) = toUpperCase up (trim s)"
    using a b by (simp add: toUpperCase_def trim_map isWhiteSpace_ascii_case ascii_case comp_def)
  show "toUpperCase up (trim (map upperAscii s)) = toUpperCase up (trim s)"
    using a b by (simp add: toUpperCase_def trim_map isWhiteSpace_ascii_case ascii_case comp_def)
  show "trim (map lowerAscii s) = [] \<longleftrightarrow> trim s = []"
    by (simp add: trim_map isWhiteSpace_ascii_case)
  show "trim (map upperAscii s) = [] \<longleftrightarrow> trim s = []"
    by (simp add: trim_map isWhiteSpace_ascii_case)
qed

lemma normalizeObjectType_clean:
  "normalizeObjectType up (toCleanString (JString s)) =
     (if trim s = [] then None
      else Some (let u = toUpperCase up (trim s) in
             if u = str ''PAY'' \<or> u = str ''PAYLOAD'' then str ''PAYLOAD''
             else if u = str ''DEB'' \<or> u = str ''DEBRIS'' then str ''DEBRIS''
             else if u = str ''R/B'' \<or> u = str ''RB'' \<or> u = str ''ROCKET BODY'' then str ''ROCKET BODY''
             else u))"
  by (auto simp: normalizeObjectType_def trim_idem Let_def)

lemma tag_case_insensitive:
  assumes "list_all isAscii tag"
  shows "normalizeObjectType up (toCleanString (JString (toLowerCase lo tag)))
           = normalizeObjectType up (toCleanString (JString tag))"
    and "normalizeObjectType up (toCleanString (JString (toUpperCase up' tag)))
           = normalizeObjectType up (toCleanString (JString tag))"
proof -
  have l: "toLowerCase lo tag = map lowerAscii tag" and u: "toUpperCase up' tag = map upperAscii tag"
    using assms by (simp_all add: toLowerCase_def toUpperCase_def)
  show "normalizeObjectType up (toCleanString (JString (toLowerCase lo tag)))
           = normalizeObjectType up (toCleanString (JString tag))"
    by (simp only: l normalizeObjectType_clean toUpperCase_ascii [OF assms])
  show "normalizeObjectType up (toCleanString (JString (toUpperCase up' tag)))
           = normalizeObjectType up (toCleanString (JString tag))"
    by (simp only: u normalizeObjectType_clean toUpperCase_ascii [OF assms])
qed

text \<open>
  C8 (as the code has it). The classification of a stored record is a function of the
  trimmed, upper-cased tag when the tag is a string that is not blank: the synonyms
  \<open>PAY\<close> and \<open>PAYLOAD\<close> give \<open>PAYLOAD\<close>, \<open>DEB\<close> and \<open>DEBRIS\<close> give \<open>DEBRIS\<close>,
  \<open>R/B\<close>, \<open>RB\<close> and \<open>ROCKET BODY\<close> give \<open>ROCKET BODY\<close>, and any other tag is passed
  on trimmed and in upper case; the case of the letters of an ASCII tag does not
  matter. When the tag is absent, not a string or blank, the classification is
  inferred from the upper-cased name: \<open>DEBRIS\<close> if it contains \<open>DEB\<close> after a space or
  contains \<open>DEBRIS\<close>, otherwise \<open>ROCKET BODY\<close> if it contains \<open>R/B\<close> after a space or
  contains \<open>ROCKET BODY\<close>, and \<open>PAYLOAD\<close> otherwise.
\<close>

theorem classification_normalization:
  assumes "normalizeEntry up repr j2s entry = Some r"
  shows "(\<forall>s. OBJECT_TYPE entry = JString s \<and> trim s \<noteq> [] \<longrightarrow>
            objectType r = Some (let u = toUpperCase up (trim s) in
               if u = str ''PAY'' \<or> u = str ''PAYLOAD'' then str ''PAYLOAD''
               else if u = str ''DEB'' \<or> u = str ''DEBRIS'' then str ''DEBRIS''
               else if u = str ''R/B'' \<or> u = str ''RB'' \<or> u = str ''ROCKET BODY'' then str ''ROCKET BODY''
               else u))
       \<and> ((\<forall>s. OBJECT_TYPE entry = JString s \<longrightarrow> trim s = []) \<longrightarrow>
            objectType r = Some (let n = toUpperCase up (objectName r) in
               if str_includes n (str '' DEB'') \<or> str_includes n (str ''DEBRIS'') then str ''DEBRIS''
               else if str_includes n (str '' R/B'') \<or> str_includes n (str ''ROCKET BODY'')
               then str ''ROCKET BODY''
               else str ''PAYLOAD''))
       \<and> (\<forall>tag lo up'. list_all isAscii tag \<longrightarrow>
              normalizeObjectType up (toCleanString (JString (toLowerCase lo tag)))
                = normalizeObjectType up (toCleanString (JString tag))
              \<and> normalizeObjectType up (toCleanString (JString (toUpperCase up' tag)))
                = normalizeObjectType up (toCleanString (JString tag)))"
proof (intro conjI allI impI)
  fix s
  assume "OBJECT_TYPE entry = JString s \<and> trim s \<noteq> []"
  then have c: "OBJECT_TYPE entry = JString s" and ne: "trim s \<noteq> []"
    by simp_all
  have nt: "normalizeObjectType up (toCleanString (OBJECT_TYPE entry)) =
          Some (let u = toUpperCase up (trim s) in
               if u = str ''PAY'' \<or> u = str ''PAYLOAD'' then str ''PAYLOAD''
               else if u = str ''DEB'' \<or> u = str ''DEBRIS'' then str ''DEBRIS''
               else if u = str ''R/B'' \<or> u = str ''RB'' \<or> u = str ''ROCKET BODY'' then str ''ROCKET BODY''
               else u)"
    unfolding c by (simp only: normalizeObjectType_clean ne if_False)
  from assms show "objectType r = Some (let u = toUpperCase up (trim s) in
               if u = str ''PAY'' \<or> u = str ''PAYLOAD'' then str ''PAYLOAD''
               else if u = str ''DEB'' \<or> u = str ''DEBRIS'' then str ''DEBRIS''
               else if u = str ''R/B'' \<or> u = str ''RB'' \<or> u = str ''ROCKET BODY'' then str ''ROCKET BODY''
               else u)"
    by (auto simp: normalizeEntry_def nt Let_def split: option.splits)
next
  assume "\<forall>s. OBJECT_TYPE entry = JString s \<longrightarrow> trim s = []"
  then have c: "toCleanString (OBJECT_TYPE entry) = None"
    by (simp add: toCleanString_None_iff)
  from assms show "objectType r = Some (let n = toUpperCase up (objectName r) in
               if str_includes n (str '' DEB'') \<or> str_includes n (str ''DEBRIS'') then str ''DEBRIS''
               else if str_includes n (str '' R/B'') \<or> str_includes n (str ''ROCKET BODY'')
               then str ''ROCKET BODY''
               else str ''PAYLOAD'')"
    by (auto simp: normalizeEntry_def normalizeObjectType_def inferObjectTypeFromName_def c Let_def
             split: option.splits)
next
  fix tag lo up'
  assume a: "list_all isAscii tag"
  show "normalizeObjectType up (toCleanString (JString (toLowerCase lo tag)))
          = normalizeObjectType up (toCleanString (JString tag))"
    using a by (rule tag_case_insensitive(1))
  show "normalizeObjectType up (toCleanString (JString (toUpperCase up' tag)))
          = normalizeObjectType up (toCleanString (JString tag))"
    using a by (rule tag_case_insensitive(2))
qed

lemma sample_runtime:
  "unicodeUpper (sampleEnv t fr) = (\<lambda>s. s)"
  "unicodeLower (sampleEnv t fr) = (\<lambda>s. s)"
  "json2satrec (sampleEnv t fr) (sampleEntry i n ty el) = (if el = 0 then None else Some el)"
  by (simp_all add: sampleEnv_def sampleEntry_def)

lemma sampleEntry_sel:
  "NORAD_CAT_ID (sampleEntry i n ty el) = i"
  "OBJECT_NAME (sampleEntry i n ty el) = n"
  "OBJECT_TYPE (sampleEntry i n ty el) = ty"
  "COUNTRY_CODE (sampleEntry i n ty el) = JString (str ''US'')"
  "INCLINATION (sampleEntry i n ty el) = JNumber (Fin 51)"
  "LAUNCH_DATE (sampleEntry i n ty el) = JNull"
  by (simp_all add: sampleEntry_def)

lemmas infer_simps = normalizeEntry_def sampleEntry_sel sample_runtime sampleEnv_sel
  normalizeObjectType_def inferObjectTypeFromName_def case_simps number_simps Let_def

theorem classification_normalization_witness:
  "normalizeEntry (unicodeUpper (sampleEnv 0 (FetchFails OtherThrown)))
       (reprNumber (sampleEnv 0 (FetchFails OtherThrown)))
       (json2satrec (sampleEnv 0 (FetchFails OtherThrown)))
       (sampleEntry (JNumber (Fin 1)) (JString (str ''Cosmos 1408 deb'')) (JString (str '' r/b '')) 1)
     = Some \<lparr>countryCode = Some (str ''US''), inclination = Some (Fin 51), launchDate = None,
             noradId = Fin 1, objectName = str ''Cosmos 1408 deb'',
             objectType = Some (str ''ROCKET BODY''), satrec = 1\<rparr>
   \<and> normalizeEntry (unicodeUpper (sampleEnv 0 (FetchFails OtherThrown)))
       (reprNumber (sampleEnv 0 (FetchFails OtherThrown)))
       (json2satrec (sampleEnv 0 (FetchFails OtherThrown)))
       (sampleEntry (JNumber (Fin 2)) (JString (str ''Cosmos 1408 deb'')) (JString [0xA0, 0x20]) 2)
     = Some \<lparr>countryCode = Some (str ''US''), inclination = Some (Fin 51), launchDate = None,
             noradId = Fin 2, objectName = str ''Cosmos 1408 deb'',
             objectType = Some (str ''DEBRIS''), satrec = 2\<rparr>"
proof (intro conjI)
  let ?E = "sampleEnv 0 (FetchFails OtherThrown) :: (nat, nat) env"
  let ?e1 = "sampleEntry (JNumber (Fin 1)) (JString (str ''Cosmos 1408 deb'')) (JString (str '' r/b '')) 1"
  let ?e2 = "sampleEntry (JNumber (Fin 2)) (JString (str ''Cosmos 1408 deb'')) (JString [0xA0, 0x20]) 2"
  obtain r1 where r1: "normalizeEntry (unicodeUpper ?E) (reprNumber ?E) (json2satrec ?E) ?e1 = Some r1"
    by (simp add: infer_simps)
  from classification_normalization [OF r1]
  have "objectType r1 = Some (str ''ROCKET BODY'')"
    by (simp add: sampleEntry_sel trim_def isWhiteSpace_def case_simps str_simps)
  with r1 show "normalizeEntry (unicodeUpper ?E) (reprNumber ?E) (json2satrec ?E) ?e1
     = Some \<lparr>countryCode = Some (str ''US''), inclination = Some (Fin 51), launchDate = None,
             noradId = Fin 1, objectName = str ''Cosmos 1408 deb'',
             objectType = Some (str ''ROCKET BODY''), satrec = 1\<rparr>"
    by (simp add: infer_simps)
  obtain r2 where r2: "normalizeEntry (unicodeUpper ?E) (reprNumber ?E) (json2satrec ?E) ?e2 = Some r2"
    by (simp add: infer_simps)
  then have n2: "objectName r2 = str ''Cosmos 1408 deb''"
    by (auto simp: infer_simps)
  from classification_normalization [OF r2]
  have "objectType r2 = Some (str ''DEBRIS'')"
    by (simp add: n2 sampleEntry_sel trim_def isWhiteSpace_def case_simps str_simps)
  with r2 show "normalizeEntry (unicodeUpper ?E) (reprNumber ?E) (json2satrec ?E) ?e2
     = Some \<lparr>countryCode = Some (str ''US''), inclination = Some (Fin 51), launchDate = None,
             noradId = Fin 2, objectName = str ''Cosmos 1408 deb'',
             objectType = Some (str ''DEBRIS''), satrec = 2\<rparr>"
    by (simp add: infer_simps)
qed

text \<open>
  C8, as the specification words it, asks for \<open>ROCKET BODY\<close> whenever the name contains
  \<open>R/B\<close>, and for \<open>DEBRIS\<close> when the name contains \<open>DEB\<close> as a token. The name
  \<open>SL-8-R/B\<close> contains \<open>R/B\<close>, but not after a space: a record with this name and no
  tag is classified \<open>PAYLOAD\<close>. The name \<open>DEB\<close> is the token \<open>DEB\<close>, with no space
  before it: it is classified \<open>PAYLOAD\<close>. The name \<open>cosmos debutant\<close> has no token
  \<open>DEB\<close> and does not contain \<open>DEBRIS\<close>, but contains \<open>DEB\<close> after a space: it is
  classified \<open>DEBRIS\<close>.
\<close>

theorem classification_inference_counterexample:
  "specInferObjectType (unicodeUpper (sampleEnv 0 (FetchFails OtherThrown))) (str ''SL-8-R/B'')
     = str ''ROCKET BODY''
   \<and> inferObjectTypeFromName (unicodeUpper (sampleEnv 0 (FetchFails OtherThrown))) (str ''SL-8-R/B'')
     = str ''PAYLOAD''
   \<and> specInferObjectType (unicodeUpper (sampleEnv 0 (FetchFails OtherThrown))) (str ''DEB'')
     = str ''DEBRIS''
   \<and> inferObjectTypeFromName (unicodeUpper (sampleEnv 0 (FetchFails OtherThrown))) (str ''DEB'')
     = str ''PAYLOAD''
   \<and> specInferObjectType (unicodeUpper (sampleEnv 0 (FetchFails OtherThrown))) (str ''cosmos debutant'')
     = str ''PAYLOAD''
   \<and> inferObjectTypeFromName (unicodeUpper (sampleEnv 0 (FetchFails OtherThrown))) (str ''cosmos debutant'')
     = str ''DEBRIS''
   \<and> normalizeEntry (unicodeUpper (sampleEnv 0 (FetchFails OtherThrown)))
       (reprNumber (sampleEnv 0 (FetchFails OtherThrown)))
       (json2satrec (sampleEnv 0 (FetchFails OtherThrown)))
       (sampleEntry (JNumber (Fin 3)) (JString (str ''SL-8-R/B'')) JUndefined 3)
     = Some \<lparr>countryCode = Some (str ''US''), inclination = Some (Fin 51), launchDate = None,
             noradId = Fin 3, objectName = str ''SL-8-R/B'', objectType = Some (str ''PAYLOAD''),
             satrec = 3\<rparr>
   \<and> normalizeEntry (unicodeUpper (sampleEnv 0 (FetchFails OtherThrown)))
       (reprNumber (sampleEnv 0 (FetchFails OtherThrown)))
       (json2satrec (sampleEnv 0 (FetchFails OtherThrown)))
       (sampleEntry (JNumber (Fin 4)) (JString (str ''DEB'')) JUndefined 4)
     = Some \<lparr>countryCode = Some (str ''US''), inclination = Some (Fin 51), launchDate = None,
             noradId = Fin 4, objectName = str ''DEB'', objectType = Some (str ''PAYLOAD''),
             satrec = 4\<rparr>
   \<and> normalizeEntry (unicodeUpper (sampleEnv 0 (FetchFails OtherThrown)))
       (reprNumber (sampleEnv 0 (FetchFails OtherThrown)))
       (json2satrec (sampleEnv 0 (FetchFails OtherThrown)))
       (sampleEntry (JNumber (Fin 5)) (JString (str ''cosmos debutant'')) JUndefined 5)
     = Some \<lparr>countryCode = Some (str ''US''), inclination = Some (Fin 51), launchDate = None,
             noradId = Fin 5, objectName = str ''cosmos debutant'', objectType = Some (str ''DEBRIS''),
             satrec = 5\<rparr>"
  by (simp add: infer_simps specInferObjectType_def specContainsToken_def)

section \<open>Properties of the transition engine\<close>

lemma js_rem_360:
  assumes "0 \<le> v"
  shows "\<exists>q::int. js_rem (Fin v) (Fin 360) = Fin (v - 360 * real_of_int q)
           \<and> 0 \<le> v - 360 * real_of_int q \<and> v - 360 * real_of_int q < 360"
proof -
  define q where "q = \<lfloor>v / 360\<rfloor>"
  have t: "truncate_real (v / 360) = q"
    using assms by (simp add: truncate_real_def q_def)
  have "real_of_int q \<le> v / 360" "v / 360 < real_of_int q + 1"
    unfolding q_def by linarith+
  then have "0 \<le> v - 360 * real_of_int q" "v - 360 * real_of_int q < 360"
    by (simp_all add: field_simps)
  then show ?thesis
    using t by auto
qed

text \<open>
  A rounded result lies between the integers that enclose the exact one, and within
  \<open>(\<bar>u\<bar> + 1) / 2^53\<close> of it.
\<close>

lemma rounding_error:
  assumes "binary64_rounding fl" and "fl u = Fin r"
  shows "\<bar>r - u\<bar> \<le> (\<bar>u\<bar> + 1) / 2 ^ 53"
proof -
  have "\<bar>r - u\<bar> \<le> \<bar>u\<bar> / 2 ^ 53 + 1 / 2 ^ 1075"
    using assms unfolding binary64_rounding_def by blast
  moreover have "(1::real) / 2 ^ 1075 \<le> 1 / 2 ^ 53"
    by (rule frac_le) (simp_all add: power_increasing)
  ultimately show ?thesis
    by (simp add: add_divide_distrib)
qed

lemma rounding_between:
  assumes "binary64_rounding fl" and "real_of_int n \<le> u" and "u \<le> real_of_int m"
    and "\<bar>n\<bar> \<le> 2 ^ 53" and "\<bar>m\<bar> \<le> 2 ^ 53"
  shows "\<exists>r. fl u = Fin r \<and> real_of_int n \<le> r \<and> r \<le> real_of_int m
           \<and> \<bar>r - u\<bar> \<le> (\<bar>u\<bar> + 1) / 2 ^ 53"
proof -
  have mono: "js_le (fl v) (fl w)" if "v \<le> w" for v w
    using assms(1) that unfolding binary64_rounding_def by blast
  have ints: "fl (real_of_int i) = Fin (real_of_int i)" if "\<bar>i\<bar> \<le> 2 ^ 53" for i :: int
    using assms(1) that unfolding binary64_rounding_def by blast
  have lo: "js_le (Fin (real_of_int n)) (fl u)"
    using mono [OF assms(2)] ints [OF assms(4)] by simp
  have hi: "js_le (fl u) (Fin (real_of_int m))"
    using mono [OF assms(3)] ints [OF assms(5)] by simp
  from lo hi obtain r where r: "fl u = Fin r" "real_of_int n \<le> r" "r \<le> real_of_int m"
    by (cases "fl u") (auto simp: js_le_def)
  from rounding_error [OF assms(1) r(1)] r show ?thesis
    by blast
qed

lemma longitudeDelta_rounded:
  assumes fl: "binary64_rounding fl" and "- 180 \<le> a" "a \<le> 180" "- 180 \<le> b" "b \<le> 180"
  shows "\<exists>d. longitudeDelta fl (Fin a) (Fin b) = Fin d \<and> - 180 \<le> d \<and> d \<le> 180
           \<and> (\<exists>j::int. \<bar>d - (b - a + 360 * real_of_int j)\<bar> \<le> 1 / 2 ^ 42)"
proof -
  from rounding_between [OF fl, of "- 360" "b - a" 360] assms(2-5)
  obtain r1 where r1: "fl (b - a) = Fin r1" "- 360 \<le> r1" "r1 \<le> 360"
    and e1: "\<bar>r1 - (b - a)\<bar> \<le> (\<bar>b - a\<bar> + 1) / 2 ^ 53"
    by auto
  from rounding_between [OF fl, of 180 "r1 + 540" 900] r1(2,3)
  obtain r2 where r2: "fl (r1 + 540) = Fin r2" "180 \<le> r2" "r2 \<le> 900"
    and e2: "\<bar>r2 - (r1 + 540)\<bar> \<le> (\<bar>r1 + 540\<bar> + 1) / 2 ^ 53"
    by auto
  have "0 \<le> r2" using r2(2) by simp
  from js_rem_360 [OF this] obtain q :: int where
    rm: "js_rem (Fin r2) (Fin 360) = Fin (r2 - 360 * real_of_int q)"
    and t3: "0 \<le> r2 - 360 * real_of_int q" "r2 - 360 * real_of_int q < 360"
    by blast
  from rounding_between [OF fl, of "- 180" "r2 - 360 * real_of_int q - 180" 180] t3
  obtain d where d: "fl (r2 - 360 * real_of_int q - 180) = Fin d" "- 180 \<le> d" "d \<le> 180"
    and e3: "\<bar>d - (r2 - 360 * real_of_int q - 180)\<bar> \<le> (\<bar>r2 - 360 * real_of_int q - 180\<bar> + 1) / 2 ^ 53"
    by auto
  have s1: "fl_sub fl (Fin b) (Fin a) = Fin r1"
    by (simp add: fl_sub_def rounded_def js_sub_def r1(1))
  have s2: "fl_add fl (Fin r1) (Fin 540) = Fin r2"
    by (simp add: fl_add_def rounded_def r2(1))
  have s3: "fl_sub fl (Fin (r2 - 360 * real_of_int q)) (Fin 180) = Fin d"
    by (simp add: fl_sub_def rounded_def js_sub_def d(1))
  have 1: "longitudeDelta fl (Fin a) (Fin b) = Fin d"
    by (simp only: longitudeDelta_def s1 s2 rm s3)
  have b1: "\<bar>r1 - (b - a)\<bar> \<le> 361 / 2 ^ 53"
  proof -
    have "(\<bar>b - a\<bar> + 1) / 2 ^ 53 \<le> 361 / 2 ^ 53"
      using assms(2-5) by (intro divide_right_mono) auto
    with e1 show ?thesis by linarith
  qed
  have b2: "\<bar>r2 - (r1 + 540)\<bar> \<le> 901 / 2 ^ 53"
  proof -
    have "(\<bar>r1 + 540\<bar> + 1) / 2 ^ 53 \<le> 901 / 2 ^ 53"
      using r1(2,3) by (intro divide_right_mono) auto
    with e2 show ?thesis by linarith
  qed
  have b3: "\<bar>d - (r2 - 360 * real_of_int q - 180)\<bar> \<le> 181 / 2 ^ 53"
  proof -
    have "(\<bar>r2 - 360 * real_of_int q - 180\<bar> + 1) / 2 ^ 53 \<le> 181 / 2 ^ 53"
      using t3 by (intro divide_right_mono) auto
    with e3 show ?thesis by linarith
  qed
  have "d - (b - a + 360 * real_of_int (1 - q))
      = (d - (r2 - 360 * real_of_int q - 180)) + (r2 - (r1 + 540)) + (r1 - (b - a))"
    by simp
  then have "\<bar>d - (b - a + 360 * real_of_int (1 - q))\<bar> \<le> 181 / 2 ^ 53 + 901 / 2 ^ 53 + 361 / 2 ^ 53"
    using b1 b2 b3 by linarith
  also have "\<dots> \<le> 1 / 2 ^ 42"
    by simp
  finally have "\<exists>j::int. \<bar>d - (b - a + 360 * real_of_int j)\<bar> \<le> 1 / 2 ^ 42"
    by blast
  with 1 d(2,3) show ?thesis by blast
qed

lemma shortest_shift:
  assumes "\<bar>d\<bar> \<le> 180" and "\<bar>d - (c + 360 * real_of_int j)\<bar> \<le> tol"
  shows "\<bar>d\<bar> \<le> \<bar>c + 360 * real_of_int k\<bar> + tol"
proof (cases "k = j")
  case True
  with assms(2) show ?thesis by linarith
next
  case False
  define i where "i = k - j"
  have i: "i \<noteq> 0" using False by (simp add: i_def)
  have e: "c + 360 * real_of_int k = (c + 360 * real_of_int j) + 360 * real_of_int i"
    by (simp add: i_def)
  have "1 \<le> \<bar>i\<bar>" using i by linarith
  then have "(1::real) \<le> real_of_int \<bar>i\<bar>" by (simp only: of_int_1_le_iff)
  then have "1 \<le> \<bar>real_of_int i\<bar>" by simp
  then have "360 \<le> \<bar>360 * real_of_int i\<bar>"
    by (simp add: abs_mult)
  then have "360 - \<bar>c + 360 * real_of_int j\<bar> \<le> \<bar>c + 360 * real_of_int k\<bar>"
    unfolding e by linarith
  moreover have "\<bar>c + 360 * real_of_int j\<bar> \<le> \<bar>d\<bar> + tol"
    using assms(2) by linarith
  ultimately show ?thesis
    using assms(1) by linarith
qed

lemma interpolated_longitude:
  assumes fl: "binary64_rounding fl" and "- 180 \<le> a" "a \<le> 180" "\<bar>d\<bar> \<le> 180" "0 \<le> e" "e \<le> 1"
  shows "\<exists>m. normalizeLongitude_globe fl (fl_add fl (Fin a) (fl_mul fl (Fin d) (Fin e))) = Fin m
           \<and> - 180 \<le> m \<and> m \<le> 180
           \<and> (\<exists>j::int. \<bar>j\<bar> \<le> 1 \<and> \<bar>m - (a + d * e + 360 * real_of_int j)\<bar> \<le> 1 / 2 ^ 43)
           \<and> (a = 179 \<and> d = 2 \<longrightarrow> 179 \<le> m \<or> m \<le> - 179)"
proof -
  have de: "\<bar>d * e\<bar> \<le> 180"
  proof -
    have "\<bar>d * e\<bar> = \<bar>d\<bar> * e" using assms(5) by (simp add: abs_mult)
    also have "\<dots> \<le> \<bar>d\<bar> * 1" using assms(6) by (intro mult_left_mono) simp_all
    also have "\<dots> \<le> 180" using assms(4) by simp
    finally show ?thesis .
  qed
  then have de': "- 180 \<le> d * e" "d * e \<le> 180"
    by linarith+
  from rounding_between [OF fl, of "- 180" "d * e" 180] de'
  obtain p1 where p1: "fl (d * e) = Fin p1" "- 180 \<le> p1" "p1 \<le> 180"
    and e1: "\<bar>p1 - d * e\<bar> \<le> (\<bar>d * e\<bar> + 1) / 2 ^ 53"
    by auto
  from rounding_between [OF fl, of "- 360" "a + p1" 360] p1(2,3) assms(2,3)
  obtain p2 where p2: "fl (a + p1) = Fin p2" "- 360 \<le> p2" "p2 \<le> 360"
    and e2: "\<bar>p2 - (a + p1)\<bar> \<le> (\<bar>a + p1\<bar> + 1) / 2 ^ 53"
    by auto
  have b1: "\<bar>p1 - d * e\<bar> \<le> 181 / 2 ^ 53"
  proof -
    have "(\<bar>d * e\<bar> + 1) / 2 ^ 53 \<le> 181 / 2 ^ 53"
      using de by (intro divide_right_mono) auto
    with e1 show ?thesis by linarith
  qed
  have b2: "\<bar>p2 - (a + p1)\<bar> \<le> 361 / 2 ^ 53"
  proof -
    have "(\<bar>a + p1\<bar> + 1) / 2 ^ 53 \<le> 361 / 2 ^ 53"
      using p1(2,3) assms(2,3) by (intro divide_right_mono) auto
    with e2 show ?thesis by linarith
  qed
  have b12: "\<bar>p2 - (a + d * e)\<bar> \<le> 542 / 2 ^ 53"
    using b1 b2 by linarith
  have arg: "fl_add fl (Fin a) (fl_mul fl (Fin d) (Fin e)) = Fin p2"
    by (simp add: fl_add_def fl_mul_def rounded_def p1(1) p2(1))
  have sp: "179 \<le> p2 \<and> p2 \<le> 181" if "a = 179 \<and> d = 2"
  proof -
    have "0 \<le> d * e" "d * e \<le> 2" using that assms(5,6) by simp_all
    with rounding_between [OF fl, of 0 "d * e" 2] p1(1) have "0 \<le> p1" "p1 \<le> 2"
      by auto
    then have "179 \<le> a + p1" "a + p1 \<le> 181" using that by simp_all
    with rounding_between [OF fl, of 179 "a + p1" 181] p2(1) show ?thesis
      by auto
  qed
  consider "180 < p2" | "p2 < - 180" | "- 180 \<le> p2 \<and> p2 \<le> 180"
    by linarith
  then show ?thesis
  proof cases
    case 1
    from rounding_between [OF fl, of "- 180" "p2 - 360" 0] 1 p2(3)
    obtain m where m: "fl (p2 - 360) = Fin m" "- 180 \<le> m" "m \<le> 0"
      and e3: "\<bar>m - (p2 - 360)\<bar> \<le> (\<bar>p2 - 360\<bar> + 1) / 2 ^ 53"
      by auto
    have "(\<bar>p2 - 360\<bar> + 1) / 2 ^ 53 \<le> 181 / 2 ^ 53"
      using 1 p2(3) by (intro divide_right_mono) auto
    with e3 have b3: "\<bar>m - (p2 - 360)\<bar> \<le> 181 / 2 ^ 53"
      by linarith
    have "m - (a + d * e + 360 * real_of_int (- 1)) = (m - (p2 - 360)) + (p2 - (a + d * e))"
      by simp
    then have "\<bar>m - (a + d * e + 360 * real_of_int (- 1))\<bar> \<le> 181 / 2 ^ 53 + 542 / 2 ^ 53"
      using b3 b12 by linarith
    also have "\<dots> \<le> 1 / 2 ^ 43" by simp
    finally have j: "\<exists>j::int. \<bar>j\<bar> \<le> 1 \<and> \<bar>m - (a + d * e + 360 * real_of_int j)\<bar> \<le> 1 / 2 ^ 43"
      by (intro exI [of _ "- 1"]) simp
    have n: "normalizeLongitude_globe fl (Fin p2) = Fin m"
      using 1 by (simp add: normalizeLongitude_globe_def js_gt_def fl_sub_def rounded_def js_sub_def m(1))
    have s: "a = 179 \<and> d = 2 \<longrightarrow> 179 \<le> m \<or> m \<le> - 179"
    proof
      assume h: "a = 179 \<and> d = 2"
      from sp [OF h] have "p2 - 360 \<le> - 179" by simp
      with rounding_between [OF fl, of "- 180" "p2 - 360" "- 179"] 1 m(1) have "m \<le> - 179"
        by auto
      then show "179 \<le> m \<or> m \<le> - 179" ..
    qed
    from n m(2,3) j s show ?thesis
      unfolding arg by (intro exI [of _ m]) simp
  next
    case 2
    from rounding_between [OF fl, of 0 "p2 + 360" 180] 2 p2(2)
    obtain m where m: "fl (p2 + 360) = Fin m" "0 \<le> m" "m \<le> 180"
      and e3: "\<bar>m - (p2 + 360)\<bar> \<le> (\<bar>p2 + 360\<bar> + 1) / 2 ^ 53"
      by auto
    have "(\<bar>p2 + 360\<bar> + 1) / 2 ^ 53 \<le> 181 / 2 ^ 53"
      using 2 p2(2) by (intro divide_right_mono) auto
    with e3 have b3: "\<bar>m - (p2 + 360)\<bar> \<le> 181 / 2 ^ 53"
      by linarith
    have "m - (a + d * e + 360 * real_of_int 1) = (m - (p2 + 360)) + (p2 - (a + d * e))"
      by simp
    then have "\<bar>m - (a + d * e + 360 * real_of_int 1)\<bar> \<le> 181 / 2 ^ 53 + 542 / 2 ^ 53"
      using b3 b12 by linarith
    also have "\<dots> \<le> 1 / 2 ^ 43" by simp
    finally have j: "\<exists>j::int. \<bar>j\<bar> \<le> 1 \<and> \<bar>m - (a + d * e + 360 * real_of_int j)\<bar> \<le> 1 / 2 ^ 43"
      by (intro exI [of _ 1]) simp
    have n: "normalizeLongitude_globe fl (Fin p2) = Fin m"
      using 2 by (simp add: normalizeLongitude_globe_def js_gt_def fl_add_def rounded_def m(1))
    have s: "a = 179 \<and> d = 2 \<longrightarrow> 179 \<le> m \<or> m \<le> - 179"
      using sp 2 by auto
    from n m(2,3) j s show ?thesis
      unfolding arg by (intro exI [of _ m]) simp
  next
    case 3
    have "\<bar>p2 - (a + d * e + 360 * real_of_int 0)\<bar> \<le> 542 / 2 ^ 53"
      using b12 by simp
    also have "\<dots> \<le> 1 / 2 ^ 43" by simp
    finally have j: "\<exists>j::int. \<bar>j\<bar> \<le> 1 \<and> \<bar>p2 - (a + d * e + 360 * real_of_int j)\<bar> \<le> 1 / 2 ^ 43"
      by (intro exI [of _ 0]) simp
    have n: "normalizeLongitude_globe fl (Fin p2) = Fin p2"
      using 3 by (simp add: normalizeLongitude_globe_def js_gt_def)
    have s: "a = 179 \<and> d = 2 \<longrightarrow> 179 \<le> p2 \<or> p2 \<le> - 179"
      using sp by auto
    from n 3 j s show ?thesis
      unfolding arg by (intro exI [of _ p2]) simp
  qed
qed

lemma update_fresh: "k \<notin> fst ` set al \<Longrightarrow> AList.update k v al = al @ [(k, v)]"
  by (induction al) auto

lemma targetLoop_keys:
  "fst ` set (targetLoop bw xs acc) = fst ` set acc \<union> noradId ` set xs"
  by (induction xs arbitrary: acc) (auto simp: AList.dom_update)

lemma targetLoop_distinct:
  "distinct (map fst acc) \<Longrightarrow> distinct (map fst (targetLoop bw xs acc))"
  by (induction xs arbitrary: acc) (auto simp: AList.distinct_update)

lemma targetLoop_entry:
  "map_of (targetLoop bw xs acc) k = Some p \<Longrightarrow>
     map_of acc k = Some p \<or> (\<exists>s \<in> set xs. noradId s = k \<and> p = makeSatellitePoint bw s)"
proof (induction xs arbitrary: acc)
  case Nil
  then show ?case by simp
next
  case (Cons s xs)
  from Cons.prems have "map_of (targetLoop bw xs (AList.update (noradId s) (makeSatellitePoint bw s) acc)) k = Some p"
    by simp
  from Cons.IH [OF this] show ?case
    by (auto simp: AList.update_conv' split: if_splits)
qed

lemma makeSatellitePoint_noradId: "noradId (makeSatellitePoint bw s) = noradId s"
  by (simp add: makeSatellitePoint_def Let_def)

lemma interpolatePoint_noradId: "noradId (interpolatePoint fl e src target) = noradId target"
  by (simp add: interpolatePoint_def Let_def)

lemma fromLoop_distinct:
  "distinct (map fst tm) \<Longrightarrow> fst ` set fm \<inter> fst ` set tm = {} \<Longrightarrow>
     fromLoop rendered tm fm =
       fm @ map (\<lambda>(k, t). (k, case map_of rendered k of Some p \<Rightarrow> p | None \<Rightarrow> t)) tm"
proof (induction tm arbitrary: fm)
  case Nil
  then show ?case by simp
next
  case (Cons a tm)
  obtain k t where a: "a = (k, t)" by (cases a)
  let ?v = "case map_of rendered k of Some p \<Rightarrow> p | None \<Rightarrow> t"
  from Cons.prems a have fresh: "k \<notin> fst ` set fm" by auto
  then have u: "AList.update k ?v fm = fm @ [(k, ?v)]" by (rule update_fresh)
  have d: "distinct (map fst tm)" using Cons.prems(1) by simp
  have "fst ` set (fm @ [(k, ?v)]) \<inter> fst ` set tm = {}"
    using Cons.prems a by auto
  from Cons.IH [OF d this] show ?case
    by (simp add: a u)
qed

lemma animateLoop_distinct:
  "distinct (map fst tm) \<Longrightarrow> fst ` set nm \<inter> fst ` set tm = {} \<Longrightarrow>
     animateLoop fl eased fm tm (nm, nl) =
       (nm @ map (\<lambda>(k, t). (k, interpolatePoint fl eased (case map_of fm k of Some f \<Rightarrow> f | None \<Rightarrow> t) t)) tm,
        nl @ map (\<lambda>(k, t). interpolatePoint fl eased (case map_of fm k of Some f \<Rightarrow> f | None \<Rightarrow> t) t) tm)"
proof (induction tm arbitrary: nm nl)
  case Nil
  then show ?case by simp
next
  case (Cons a tm)
  obtain k t where a: "a = (k, t)" by (cases a)
  let ?p = "interpolatePoint fl eased (case map_of fm k of Some f \<Rightarrow> f | None \<Rightarrow> t) t"
  from Cons.prems a have fresh: "k \<notin> fst ` set nm" by auto
  then have u: "AList.update k ?p nm = nm @ [(k, ?p)]" by (rule update_fresh)
  have d: "distinct (map fst tm)" using Cons.prems(1) by simp
  have "fst ` set (nm @ [(k, ?p)]) \<inter> fst ` set tm = {}"
    using Cons.prems a by auto
  from Cons.IH [OF d this] show ?case
    by (simp add: a u Let_def)
qed

lemma targetLoop_keyed: "keyed (targetLoop bw xs [])"
proof -
  have d: "distinct (map fst (targetLoop bw xs []))"
    by (rule targetLoop_distinct) simp
  have "noradId p = k" if "(k, p) \<in> set (targetLoop bw xs [])" for k p
  proof -
    from that d have "map_of (targetLoop bw xs []) k = Some p" by simp
    from targetLoop_entry [OF this] show ?thesis
      by (auto simp: makeSatellitePoint_noradId)
  qed
  with d show ?thesis by (auto simp: keyed_def)
qed

lemma animateStep_keys:
  assumes "transitionRef st = Some tr" and "keyed (toMap tr)"
  shows "map fst (renderedMapRef (animateStep bw t h st)) = map fst (toMap tr)"
    and "map noradId (renderedSatellites (animateStep bw t h st)) = map fst (toMap tr)"
    and "transitionRef (animateStep bw t h st) = Some tr \<or> transitionRef (animateStep bw t h st) = None"
proof -
  have d: "distinct (map fst (toMap tr))" and kp: "\<forall>(k, p) \<in> set (toMap tr). noradId p = k"
    using assms(2) by (simp_all add: keyed_def)
  note al = animateLoop_distinct [OF d, of "[]" _ _ _ "[]", simplified]
  show "map fst (renderedMapRef (animateStep bw t h st)) = map fst (toMap tr)"
    by (simp add: animateStep_def assms(1) al Let_def comp_def case_prod_beta)
  show "map noradId (renderedSatellites (animateStep bw t h st)) = map fst (toMap tr)"
    using kp by (auto simp add: animateStep_def assms(1) al Let_def comp_def case_prod_beta
        interpolatePoint_noradId)
  show "transitionRef (animateStep bw t h st) = Some tr \<or> transitionRef (animateStep bw t h st) = None"
    by (simp add: animateStep_def assms(1) al Let_def)
qed

lemma animateStep_idle:
  assumes "transitionRef st = None"
  shows "renderedMapRef (animateStep bw t h st) = renderedMapRef st"
    and "renderedSatellites (animateStep bw t h st) = renderedSatellites st"
    and "transitionRef (animateStep bw t h st) = None"
  using assms by (simp_all add: animateStep_def)

lemma runFrames_keys:
  assumes "keyed tm"
    and "transitionRef st = Some tr \<and> toMap tr = tm
         \<or> transitionRef st = None \<and> map fst (renderedMapRef st) = map fst tm
             \<and> map noradId (renderedSatellites st) = map fst tm"
    and "transitionRef st = None \<or> frames \<noteq> []"
  shows "map fst (renderedMapRef (runFrames bw frames st)) = map fst tm
         \<and> map noradId (renderedSatellites (runFrames bw frames st)) = map fst tm"
  using assms(2,3)
proof (induction frames arbitrary: st tr)
  case Nil
  then show ?case by auto
next
  case (Cons a frames)
  obtain t h where a: "a = (t, h)" by (cases a)
  show ?case
  proof (cases "transitionRef st")
    case None
    with Cons.prems(1) have r: "map fst (renderedMapRef st) = map fst tm"
      "map noradId (renderedSatellites st) = map fst tm" by auto
    have "transitionRef (animateStep bw t h st) = None \<and> map fst (renderedMapRef (animateStep bw t h st)) = map fst tm
             \<and> map noradId (renderedSatellites (animateStep bw t h st)) = map fst tm"
      using animateStep_idle [OF None, of bw t h] r by simp
    then show ?thesis
      using Cons.IH [of "animateStep bw t h st" tr] by (simp add: a)
  next
    case (Some tr')
    with Cons.prems(1) have tm: "toMap tr' = tm" by auto
    then have k: "keyed (toMap tr')" using assms(1) by simp
    note ks = animateStep_keys [OF Some k, of bw t h]
    show ?thesis
    proof (cases "transitionRef (animateStep bw t h st)")
      case None
      then show ?thesis
        using Cons.IH [of "animateStep bw t h st" tr'] ks(1,2) tm by (simp add: a)
    next
      case (Some u)
      with ks(3) have "transitionRef (animateStep bw t h st) = Some tr'" by simp
      then show ?thesis
        using Cons.IH [of "animateStep bw t h st" tr'] tm
        by (cases frames) (simp_all add: a ks(1,2) tm)
    qed
  qed
qed

lemma map_of_map_keyed:
  "map_of (map (\<lambda>(k, t). (k, g k t)) al) nid = map_option (g nid) (map_of al nid)"
  by (induction al) auto

lemma animateStep_rendered:
  assumes "transitionRef st = Some tr" and "distinct (map fst (toMap tr))"
  shows "renderedMapRef (animateStep bw t h st) =
           map (\<lambda>(k, tg). (k, interpolatePoint (roundNumber bw)
                    (easeInOutCubic (roundNumber bw) (Math_pow bw) (frameProgress (roundNumber bw) tr t))
                    (case map_of (fromMap tr) k of Some f \<Rightarrow> f | None \<Rightarrow> tg) tg)) (toMap tr)"
    and "renderedSatellites (animateStep bw t h st) =
           map (\<lambda>(k, tg). interpolatePoint (roundNumber bw)
                    (easeInOutCubic (roundNumber bw) (Math_pow bw) (frameProgress (roundNumber bw) tr t))
                    (case map_of (fromMap tr) k of Some f \<Rightarrow> f | None \<Rightarrow> tg) tg) (toMap tr)"
proof -
  note al = animateLoop_distinct [OF assms(2), of "[]" _ _ _ "[]", simplified]
  show "renderedMapRef (animateStep bw t h st) =
           map (\<lambda>(k, tg). (k, interpolatePoint (roundNumber bw)
                    (easeInOutCubic (roundNumber bw) (Math_pow bw) (frameProgress (roundNumber bw) tr t))
                    (case map_of (fromMap tr) k of Some f \<Rightarrow> f | None \<Rightarrow> tg) tg)) (toMap tr)"
    by (simp add: animateStep_def assms(1) al Let_def)
  show "renderedSatellites (animateStep bw t h st) =
           map (\<lambda>(k, tg). interpolatePoint (roundNumber bw)
                    (easeInOutCubic (roundNumber bw) (Math_pow bw) (frameProgress (roundNumber bw) tr t))
                    (case map_of (fromMap tr) k of Some f \<Rightarrow> f | None \<Rightarrow> tg) tg) (toMap tr)"
    by (simp add: animateStep_def assms(1) al Let_def)
qed

lemma animateStep_point:
  assumes "transitionRef st = Some tr" and "distinct (map fst (toMap tr))"
    and "map_of (toMap tr) nid = Some target"
  shows "map_of (renderedMapRef (animateStep bw t h st)) nid =
           Some (interpolatePoint (roundNumber bw)
                  (easeInOutCubic (roundNumber bw) (Math_pow bw) (frameProgress (roundNumber bw) tr t))
                  (case map_of (fromMap tr) nid of Some f \<Rightarrow> f | None \<Rightarrow> target) target)"
    and "interpolatePoint (roundNumber bw)
           (easeInOutCubic (roundNumber bw) (Math_pow bw) (frameProgress (roundNumber bw) tr t))
           (case map_of (fromMap tr) nid of Some f \<Rightarrow> f | None \<Rightarrow> target) target
         \<in> set (renderedSatellites (animateStep bw t h st))"
proof -
  show "map_of (renderedMapRef (animateStep bw t h st)) nid =
           Some (interpolatePoint (roundNumber bw)
                  (easeInOutCubic (roundNumber bw) (Math_pow bw) (frameProgress (roundNumber bw) tr t))
                  (case map_of (fromMap tr) nid of Some f \<Rightarrow> f | None \<Rightarrow> target) target)"
    by (simp only: animateStep_rendered(1) [OF assms(1,2)] map_of_map_keyed assms(3) option.map)
  have "(nid, target) \<in> set (toMap tr)"
    using assms(3) by (rule map_of_SomeD)
  then show "interpolatePoint (roundNumber bw)
           (easeInOutCubic (roundNumber bw) (Math_pow bw) (frameProgress (roundNumber bw) tr t))
           (case map_of (fromMap tr) nid of Some f \<Rightarrow> f | None \<Rightarrow> target) target
         \<in> set (renderedSatellites (animateStep bw t h st))"
    unfolding animateStep_rendered(2) [OF assms(1,2)] by force
qed

lemma rounded_exact: "rounded Fin v = v"
  by (cases v) (simp_all add: rounded_def)

lemma sampleBrowser_sel:
  "roundNumber sampleBrowser = Fin"
  "Math_pow sampleBrowser = samplePow"
  "unicodeUpper sampleBrowser = (\<lambda>s. s)"
  by (simp_all add: sampleBrowser_def)

lemmas exact_simps = fl_add_def fl_sub_def fl_mul_def fl_div_def rounded_exact sampleBrowser_sel

lemma sample_engine_started:
  "startTransition sampleBrowser [sampleSatellite 1 0 (- 179), sampleSatellite 3 5 50] (Fin 1000) 2
       (sampleEngine [sampleSatellite 1 0 179, sampleSatellite 2 0 10])
   = \<lparr>transitionRef = Some
         \<lparr>durationMs = Fin 8500,
          fromMap = [(Fin 1, makeSatellitePoint sampleBrowser (sampleSatellite 1 0 179)),
                     (Fin 3, makeSatellitePoint sampleBrowser (sampleSatellite 3 5 50))],
          startMs = Fin 1000,
          toMap = [(Fin 1, makeSatellitePoint sampleBrowser (sampleSatellite 1 0 (- 179))),
                   (Fin 3, makeSatellitePoint sampleBrowser (sampleSatellite 3 5 50))]\<rparr>,
      animationFrameRef = Some 2,
      renderedMapRef = [(Fin 1, makeSatellitePoint sampleBrowser (sampleSatellite 1 0 179)),
                        (Fin 2, makeSatellitePoint sampleBrowser (sampleSatellite 2 0 10))],
      renderedSatellites = [makeSatellitePoint sampleBrowser (sampleSatellite 1 0 179),
                            makeSatellitePoint sampleBrowser (sampleSatellite 2 0 10)]\<rparr>"
  by (simp add: sampleEngine_def startTransition_def sampleSatellite_def makeSatellitePoint_noradId
      MOTION_DURATION_MS_def Let_def)

lemma interpolatePoint_lng:
  "lng (interpolatePoint fl e src target) =
     normalizeLongitude_globe fl
       (fl_add fl (lng src) (fl_mul fl (longitudeDelta fl (lng src) (lng target)) e))"
  by (simp add: interpolatePoint_def Let_def)

lemma sample_point:
  "lng (makeSatellitePoint sampleBrowser (sampleSatellite n la lo)) = normalizeLongitude_globe Fin (Fin lo)"
  "noradId (makeSatellitePoint sampleBrowser (sampleSatellite n la lo)) = Fin n"
  by (simp_all add: makeSatellitePoint_def sampleSatellite_def sampleBrowser_sel Let_def)

lemma sample_frame:
  "map (\<lambda>p. (noradId p, lng p))
     (renderedSatellites (animateStep sampleBrowser (Fin 5250) 3
        (startTransition sampleBrowser [sampleSatellite 1 0 (- 179), sampleSatellite 3 5 50] (Fin 1000) 2
           (sampleEngine [sampleSatellite 1 0 179, sampleSatellite 2 0 10]))))
   = [(Fin 1, Fin 180), (Fin 3, Fin 50)]"
  unfolding sample_engine_started
  by (simp add: animateStep_def frameProgress_def Math_min_def easeInOutCubic_def samplePow_def
      exact_simps Let_def interpolatePoint_noradId interpolatePoint_lng sample_point
      normalizeLongitude_globe_def js_gt_def js_sub_def longitudeDelta_def truncate_real_def)

lemma sample_frame_map:
  "renderedMapRef (animateStep sampleBrowser (Fin 5250) 3
        (startTransition sampleBrowser [sampleSatellite 1 0 (- 179), sampleSatellite 3 5 50] (Fin 1000) 2
           (sampleEngine [sampleSatellite 1 0 179, sampleSatellite 2 0 10])))
   = [(Fin 1, interpolatePoint Fin (Fin (1 / 2)) (makeSatellitePoint sampleBrowser (sampleSatellite 1 0 179))
                (makeSatellitePoint sampleBrowser (sampleSatellite 1 0 (- 179)))),
      (Fin 3, interpolatePoint Fin (Fin (1 / 2)) (makeSatellitePoint sampleBrowser (sampleSatellite 3 5 50))
                (makeSatellitePoint sampleBrowser (sampleSatellite 3 5 50)))]"
  unfolding sample_engine_started
  by (simp add: animateStep_def frameProgress_def Math_min_def easeInOutCubic_def samplePow_def
      exact_simps Let_def js_sub_def)

lemma binary64_rounding_exact: "binary64_rounding Fin"
  by (simp add: binary64_rounding_def js_le_def)

text \<open>
  C7. A frame of \<open>animateStep\<close> renders, for every identifier of the target map, the
  point whose longitude is the longitude \<open>a\<close> it starts from plus the eased fraction
  \<open>e\<close> of \<open>longitudeDelta\<close>, normalized. The arithmetic is that of binary64: every
  result is rounded. For normalized longitudes \<open>a\<close> and \<open>b\<close> the delta \<open>d\<close> is in
  \<open>[-180, 180]\<close>, it is the difference \<open>b - a\<close> shifted by a multiple of \<open>360\<close> up to
  a rounding error of at most \<open>2^-42\<close>, and no shift of the difference is shorter by
  more than that. At an eased progress \<open>e\<close> between \<open>0\<close> and \<open>1\<close> the rendered
  longitude is in \<open>[-180, 180]\<close> and is \<open>a + d * e\<close>, brought back by at most one turn,
  up to \<open>2^-43\<close>: the point at the fraction \<open>e\<close> of that arc. From \<open>179\<close> to \<open>-179\<close>
  the delta is exactly \<open>2\<close> and every frame is at \<open>179\<close> or beyond, or at \<open>-179\<close> or
  beyond, on the side of the date line.
\<close>

theorem animateStep_shortest_arc:
  assumes "binary64_rounding (roundNumber bw)"
    and "transitionRef st = Some tr"
    and "distinct (map fst (toMap tr))"
    and "map_of (toMap tr) nid = Some target"
    and "lng (case map_of (fromMap tr) nid of Some f \<Rightarrow> f | None \<Rightarrow> target) = Fin a"
    and "lng target = Fin b"
    and "- 180 \<le> a" "a \<le> 180" "- 180 \<le> b" "b \<le> 180"
    and "easeInOutCubic (roundNumber bw) (Math_pow bw) (frameProgress (roundNumber bw) tr t) = Fin e"
    and "0 \<le> e" "e \<le> 1"
  shows "\<exists>d p m. longitudeDelta (roundNumber bw) (Fin a) (Fin b) = Fin d
           \<and> - 180 \<le> d \<and> d \<le> 180
           \<and> (\<exists>j::int. \<bar>d - (b - a + 360 * real_of_int j)\<bar> \<le> 1 / 2 ^ 42)
           \<and> (\<forall>j::int. \<bar>d\<bar> \<le> \<bar>b - a + 360 * real_of_int j\<bar> + 1 / 2 ^ 42)
           \<and> map_of (renderedMapRef (animateStep bw t h st)) nid = Some p
           \<and> p \<in> set (renderedSatellites (animateStep bw t h st))
           \<and> lng p = normalizeLongitude_globe (roundNumber bw)
                        (fl_add (roundNumber bw) (Fin a) (fl_mul (roundNumber bw) (Fin d) (Fin e)))
           \<and> lng p = Fin m \<and> - 180 \<le> m \<and> m \<le> 180
           \<and> (\<exists>j::int. \<bar>j\<bar> \<le> 1 \<and> \<bar>m - (a + d * e + 360 * real_of_int j)\<bar> \<le> 1 / 2 ^ 43)
           \<and> (a = 179 \<and> b = - 179 \<longrightarrow> d = 2 \<and> (179 \<le> m \<or> m \<le> - 179))"
proof -
  let ?fl = "roundNumber bw"
  let ?src = "case map_of (fromMap tr) nid of Some f \<Rightarrow> f | None \<Rightarrow> target"
  define p where "p = interpolatePoint ?fl (Fin e) ?src target"
  from longitudeDelta_rounded [OF assms(1,7-10)] obtain d where
    d: "longitudeDelta ?fl (Fin a) (Fin b) = Fin d" and dr: "- 180 \<le> d" "d \<le> 180"
    and dj: "\<exists>j::int. \<bar>d - (b - a + 360 * real_of_int j)\<bar> \<le> 1 / 2 ^ 42"
    by blast
  have da: "\<bar>d\<bar> \<le> 180"
    using dr by linarith
  have mn: "\<forall>j::int. \<bar>d\<bar> \<le> \<bar>b - a + 360 * real_of_int j\<bar> + 1 / 2 ^ 42"
  proof
    fix j :: int
    from dj obtain i :: int where "\<bar>d - (b - a + 360 * real_of_int i)\<bar> \<le> 1 / 2 ^ 42"
      by blast
    with da show "\<bar>d\<bar> \<le> \<bar>b - a + 360 * real_of_int j\<bar> + 1 / 2 ^ 42"
      by (rule shortest_shift)
  qed
  from interpolated_longitude [OF assms(1,7,8) da assms(12,13)] obtain m where
    m: "normalizeLongitude_globe ?fl (fl_add ?fl (Fin a) (fl_mul ?fl (Fin d) (Fin e))) = Fin m"
    and mr: "- 180 \<le> m" "m \<le> 180"
    and mj: "\<exists>j::int. \<bar>j\<bar> \<le> 1 \<and> \<bar>m - (a + d * e + 360 * real_of_int j)\<bar> \<le> 1 / 2 ^ 43"
    and ms: "a = 179 \<and> d = 2 \<longrightarrow> 179 \<le> m \<or> m \<le> - 179"
    by blast
  have pm: "map_of (renderedMapRef (animateStep bw t h st)) nid = Some p"
    unfolding p_def using animateStep_point(1) [OF assms(2,3,4), of bw t h] by (simp only: assms(11))
  have ps: "p \<in> set (renderedSatellites (animateStep bw t h st))"
    unfolding p_def using animateStep_point(2) [OF assms(2,3,4), of bw t h] by (simp only: assms(11))
  have lg: "lng p = normalizeLongitude_globe ?fl (fl_add ?fl (Fin a) (fl_mul ?fl (Fin d) (Fin e)))"
    by (simp add: p_def interpolatePoint_def Let_def assms(5,6) d)
  have lm: "lng p = Fin m"
    by (simp only: lg m)
  have sp: "a = 179 \<and> b = - 179 \<longrightarrow> d = 2 \<and> (179 \<le> m \<or> m \<le> - 179)"
  proof
    assume ab: "a = 179 \<and> b = - 179"
    have i: "?fl (real_of_int n) = Fin (real_of_int n)" if "\<bar>n\<bar> \<le> 2 ^ 53" for n :: int
      using assms(1) that unfolding binary64_rounding_def by blast
    have i1: "?fl (- 358) = Fin (- 358)" using i [of "- 358"] by simp
    have i2: "?fl 182 = Fin 182" using i [of 182] by simp
    have i3: "?fl 2 = Fin 2" using i [of 2] by simp
    have "longitudeDelta ?fl (Fin 179) (Fin (- 179)) = Fin 2"
      by (simp add: longitudeDelta_def fl_sub_def fl_add_def rounded_def js_sub_def i1 i2 i3
          truncate_real_def)
    with d ab have d2: "d = 2" by simp
    with ms ab show "d = 2 \<and> (179 \<le> m \<or> m \<le> - 179)" by simp
  qed
  from d dr dj mn pm ps lg lm mr mj sp show ?thesis
    by blast
qed

theorem animateStep_shortest_arc_witness:
  "binary64_rounding (roundNumber sampleBrowser)
   \<and> longitudeDelta (roundNumber sampleBrowser) (Fin 179) (Fin (- 179)) = Fin 2
   \<and> map_option lng (map_of
        (renderedMapRef (animateStep sampleBrowser (Fin 5250) 3
           (startTransition sampleBrowser [sampleSatellite 1 0 (- 179), sampleSatellite 3 5 50] (Fin 1000) 2
              (sampleEngine [sampleSatellite 1 0 179, sampleSatellite 2 0 10]))))
        (Fin 1)) = Some (Fin 180)"
proof -
  let ?S = "startTransition sampleBrowser [sampleSatellite 1 0 (- 179), sampleSatellite 3 5 50] (Fin 1000) 2
              (sampleEngine [sampleSatellite 1 0 179, sampleSatellite 2 0 10])"
  let ?tr = "\<lparr>durationMs = Fin 8500,
          fromMap = [(Fin 1, makeSatellitePoint sampleBrowser (sampleSatellite 1 0 179)),
                     (Fin 3, makeSatellitePoint sampleBrowser (sampleSatellite 3 5 50))],
          startMs = Fin 1000,
          toMap = [(Fin 1, makeSatellitePoint sampleBrowser (sampleSatellite 1 0 (- 179))),
                   (Fin 3, makeSatellitePoint sampleBrowser (sampleSatellite 3 5 50))]\<rparr>"
  let ?target = "makeSatellitePoint sampleBrowser (sampleSatellite 1 0 (- 179))"
  have h1: "binary64_rounding (roundNumber sampleBrowser)"
    by (simp add: sampleBrowser_sel binary64_rounding_exact)
  have h2: "transitionRef ?S = Some ?tr"
    by (simp add: sample_engine_started)
  have h3: "distinct (map fst (toMap ?tr))"
    by simp
  have h4: "map_of (toMap ?tr) (Fin 1) = Some ?target"
    by simp
  have h5: "lng (case map_of (fromMap ?tr) (Fin 1) of Some f \<Rightarrow> f | None \<Rightarrow> ?target) = Fin 179"
    by (simp add: sample_point normalizeLongitude_globe_def js_gt_def)
  have h6: "lng ?target = Fin (- 179)"
    by (simp add: sample_point normalizeLongitude_globe_def js_gt_def)
  have h7: "easeInOutCubic (roundNumber sampleBrowser) (Math_pow sampleBrowser)
              (frameProgress (roundNumber sampleBrowser) ?tr (Fin 5250)) = Fin (1 / 2)"
    by (simp add: frameProgress_def Math_min_def easeInOutCubic_def samplePow_def exact_simps js_sub_def)
  from animateStep_shortest_arc [OF h1 h2 h3 h4 h5 h6 _ _ _ _ h7, of 3]
  obtain d p where d: "longitudeDelta (roundNumber sampleBrowser) (Fin 179) (Fin (- 179)) = Fin d"
    and d2: "d = 2"
    and pm: "map_of (renderedMapRef (animateStep sampleBrowser (Fin 5250) 3 ?S)) (Fin 1) = Some p"
    and lg: "lng p = normalizeLongitude_globe (roundNumber sampleBrowser)
                        (fl_add (roundNumber sampleBrowser) (Fin 179)
                           (fl_mul (roundNumber sampleBrowser) (Fin d) (Fin (1 / 2))))"
    by force
  have "lng p = Fin 180"
    by (simp add: lg d2 exact_simps normalizeLongitude_globe_def js_gt_def)
  with pm have "map_option lng (map_of (renderedMapRef (animateStep sampleBrowser (Fin 5250) 3 ?S)) (Fin 1))
      = Some (Fin 180)"
    by simp
  with h1 d d2 show ?thesis
    by simp
qed

text \<open>
  C9. When a snapshot arrives while the rendered map is not empty (also when a
  transition is in flight), \<open>startTransition\<close> leaves the rendered map as it is and
  installs a transition whose target map holds the points of the incoming snapshot
  under their identifiers and whose from-map has the same identifiers in the same
  order: an identifier is paired with its point in the rendered map when it has one,
  and with its own target otherwise. Every frame after that, until the next snapshot,
  renders the identifiers of the incoming snapshot and no other.
\<close>

theorem startTransition_reconciles:
  assumes "renderedMapRef st \<noteq> []"
  shows "transitionRef (startTransition bw incoming now h st) =
           Some \<lparr>durationMs = MOTION_DURATION_MS,
                 fromMap = fromLoop (renderedMapRef st) (targetLoop bw incoming []) [],
                 startMs = now,
                 toMap = targetLoop bw incoming []\<rparr>
     \<and> renderedMapRef (startTransition bw incoming now h st) = renderedMapRef st
     \<and> distinct (map fst (targetLoop bw incoming []))
     \<and> set (map fst (targetLoop bw incoming [])) = noradId ` set incoming
     \<and> map fst (fromLoop (renderedMapRef st) (targetLoop bw incoming []) [])
           = map fst (targetLoop bw incoming [])
     \<and> (\<forall>nid target. map_of (targetLoop bw incoming []) nid = Some target \<longrightarrow>
          (\<exists>s \<in> set incoming. noradId s = nid \<and> target = makeSatellitePoint bw s)
          \<and> map_of (fromLoop (renderedMapRef st) (targetLoop bw incoming []) []) nid =
              Some (case map_of (renderedMapRef st) nid of Some p \<Rightarrow> p | None \<Rightarrow> target))
     \<and> (\<forall>frames. frames \<noteq> [] \<longrightarrow>
          map fst (renderedMapRef (runFrames bw frames (startTransition bw incoming now h st)))
            = map fst (targetLoop bw incoming [])
          \<and> map noradId (renderedSatellites (runFrames bw frames (startTransition bw incoming now h st)))
            = map fst (targetLoop bw incoming []))"
proof -
  define tm where "tm = targetLoop bw incoming []"
  define fm where "fm = fromLoop (renderedMapRef st) tm []"
  define tr where "tr = \<lparr>durationMs = MOTION_DURATION_MS, fromMap = fm, startMs = now, toMap = tm\<rparr>"
  define st' where "st' = startTransition bw incoming now h st"
  have k: "keyed tm" unfolding tm_def by (rule targetLoop_keyed)
  then have d: "distinct (map fst tm)" by (simp add: keyed_def)
  have fmeq: "fm = map (\<lambda>(k, t). (k, case map_of (renderedMapRef st) k of Some p \<Rightarrow> p | None \<Rightarrow> t)) tm"
    unfolding fm_def using fromLoop_distinct [OF d, of "[]" "renderedMapRef st"] by simp
  have 1: "transitionRef st' = Some tr"
    using assms by (simp add: st'_def startTransition_def Let_def tr_def fm_def tm_def)
  have 2: "renderedMapRef st' = renderedMapRef st"
    using assms by (simp add: st'_def startTransition_def Let_def)
  have 5: "set (map fst tm) = noradId ` set incoming"
    using targetLoop_keys [of bw incoming "[]"] by (simp add: tm_def)
  have 6: "map fst fm = map fst tm"
    by (simp add: fmeq comp_def case_prod_beta)
  have 7: "\<forall>nid target. map_of tm nid = Some target \<longrightarrow>
          (\<exists>s \<in> set incoming. noradId s = nid \<and> target = makeSatellitePoint bw s)
          \<and> map_of fm nid =
              Some (case map_of (renderedMapRef st) nid of Some p \<Rightarrow> p | None \<Rightarrow> target)"
  proof (intro allI impI)
    fix nid target
    assume mt: "map_of tm nid = Some target"
    from targetLoop_entry [OF mt [unfolded tm_def]]
    have a: "\<exists>s \<in> set incoming. noradId s = nid \<and> target = makeSatellitePoint bw s" by simp
    have "map_of (map (\<lambda>(k, t). (k, g k t)) al) nid = map_option (g nid) (map_of al nid)"
      for g :: "jsnum \<Rightarrow> satellitePoint \<Rightarrow> satellitePoint" and al
      by (induction al) auto
    then have "map_of fm nid =
        Some (case map_of (renderedMapRef st) nid of Some p \<Rightarrow> p | None \<Rightarrow> target)"
      unfolding fmeq using mt by simp
    with a show "(\<exists>s \<in> set incoming. noradId s = nid \<and> target = makeSatellitePoint bw s)
          \<and> map_of fm nid =
              Some (case map_of (renderedMapRef st) nid of Some p \<Rightarrow> p | None \<Rightarrow> target)"
      by simp
  qed
  have 8: "\<forall>frames. frames \<noteq> [] \<longrightarrow>
          map fst (renderedMapRef (runFrames bw frames st')) = map fst tm
          \<and> map noradId (renderedSatellites (runFrames bw frames st')) = map fst tm"
  proof (intro allI impI)
    fix frames :: "(jsnum \<times> nat) list"
    assume "frames \<noteq> []"
    then show "map fst (renderedMapRef (runFrames bw frames st')) = map fst tm
          \<and> map noradId (renderedSatellites (runFrames bw frames st')) = map fst tm"
      using runFrames_keys [OF k, of st' tr frames bw] 1 by (simp add: tr_def)
  qed
  from 1 2 d 5 6 7 8 show ?thesis
    unfolding st'_def tr_def fm_def tm_def by (intro conjI)
qed

theorem startTransition_reconciles_witness:
  "renderedMapRef (sampleEngine [sampleSatellite 1 0 179, sampleSatellite 2 0 10]) \<noteq> []
   \<and> map fst (renderedMapRef (runFrames sampleBrowser [(Fin 5250, 3)]
        (startTransition sampleBrowser [sampleSatellite 1 0 (- 179), sampleSatellite 3 5 50] (Fin 1000) 2
           (sampleEngine [sampleSatellite 1 0 179, sampleSatellite 2 0 10])))) = [Fin 1, Fin 3]
   \<and> map (\<lambda>p. (noradId p, lng p))
     (renderedSatellites (runFrames sampleBrowser [(Fin 5250, 3)]
        (startTransition sampleBrowser [sampleSatellite 1 0 (- 179), sampleSatellite 3 5 50] (Fin 1000) 2
           (sampleEngine [sampleSatellite 1 0 179, sampleSatellite 2 0 10]))))
     = [(Fin 1, Fin 180), (Fin 3, Fin 50)]
   \<and> map_option lng (map_of
        (fromLoop
           (renderedMapRef (runFrames sampleBrowser [(Fin 5250, 3)]
              (startTransition sampleBrowser [sampleSatellite 1 0 (- 179), sampleSatellite 3 5 50] (Fin 1000) 2
                 (sampleEngine [sampleSatellite 1 0 179, sampleSatellite 2 0 10]))))
           (targetLoop sampleBrowser [sampleSatellite 1 0 (- 170)] []) [])
        (Fin 1)) = Some (Fin 180)"
proof (intro conjI)
  let ?st = "sampleEngine [sampleSatellite 1 0 179, sampleSatellite 2 0 10]"
  let ?inc = "[sampleSatellite 1 0 (- 179), sampleSatellite 3 5 50]"
  show ne: "renderedMapRef ?st \<noteq> []"
    by (simp add: sampleEngine_def startTransition_def Let_def sampleSatellite_def)
  note t = startTransition_reconciles [OF ne, of sampleBrowser ?inc "Fin 1000" 2]
  from t have "\<forall>frames. frames \<noteq> [] \<longrightarrow>
          map fst (renderedMapRef (runFrames sampleBrowser frames (startTransition sampleBrowser ?inc (Fin 1000) 2 ?st)))
            = map fst (targetLoop sampleBrowser ?inc [])
          \<and> map noradId (renderedSatellites (runFrames sampleBrowser frames (startTransition sampleBrowser ?inc (Fin 1000) 2 ?st)))
            = map fst (targetLoop sampleBrowser ?inc [])"
    by (elim conjE)
  then have "map fst (renderedMapRef (runFrames sampleBrowser [(Fin 5250, 3)] (startTransition sampleBrowser ?inc (Fin 1000) 2 ?st)))
        = map fst (targetLoop sampleBrowser ?inc [])"
    by blast
  also have "\<dots> = [Fin 1, Fin 3]"
    by (simp add: sampleSatellite_def)
  finally show "map fst (renderedMapRef (runFrames sampleBrowser [(Fin 5250, 3)]
        (startTransition sampleBrowser ?inc (Fin 1000) 2 ?st))) = [Fin 1, Fin 3]" .
  show "map (\<lambda>p. (noradId p, lng p))
     (renderedSatellites (runFrames sampleBrowser [(Fin 5250, 3)] (startTransition sampleBrowser ?inc (Fin 1000) 2 ?st)))
     = [(Fin 1, Fin 180), (Fin 3, Fin 50)]"
    using sample_frame by (simp only: runFrames.simps)
  let ?mid = "runFrames sampleBrowser [(Fin 5250, 3)] (startTransition sampleBrowser ?inc (Fin 1000) 2 ?st)"
  have mid: "renderedMapRef ?mid \<noteq> []"
    by (simp add: sample_frame_map)
  have tg: "map_of (targetLoop sampleBrowser [sampleSatellite 1 0 (- 170)] []) (Fin 1)
      = Some (makeSatellitePoint sampleBrowser (sampleSatellite 1 0 (- 170)))"
    by (simp add: sampleSatellite_def)
  from startTransition_reconciles [OF mid, of sampleBrowser "[sampleSatellite 1 0 (- 170)]" "Fin 6000" 4]
  have "\<forall>nid target. map_of (targetLoop sampleBrowser [sampleSatellite 1 0 (- 170)] []) nid = Some target \<longrightarrow>
          (\<exists>s \<in> set [sampleSatellite 1 0 (- 170)]. noradId s = nid \<and> target = makeSatellitePoint sampleBrowser s)
          \<and> map_of (fromLoop (renderedMapRef ?mid) (targetLoop sampleBrowser [sampleSatellite 1 0 (- 170)] []) []) nid =
              Some (case map_of (renderedMapRef ?mid) nid of Some p \<Rightarrow> p | None \<Rightarrow> target)"
    by (elim conjE)
  with tg have "map_of (fromLoop (renderedMapRef ?mid) (targetLoop sampleBrowser [sampleSatellite 1 0 (- 170)] []) []) (Fin 1)
      = Some (case map_of (renderedMapRef ?mid) (Fin 1) of
                Some p \<Rightarrow> p
              | None \<Rightarrow> makeSatellitePoint sampleBrowser (sampleSatellite 1 0 (- 170)))"
    by blast
  then show "map_option lng (map_of
        (fromLoop (renderedMapRef ?mid) (targetLoop sampleBrowser [sampleSatellite 1 0 (- 170)] []) []) (Fin 1))
      = Some (Fin 180)"
    by (simp add: sample_frame_map interpolatePoint_lng sample_point normalizeLongitude_globe_def
        exact_simps js_gt_def js_sub_def longitudeDelta_def truncate_real_def)
qed

end
